theory Spec2Isabelle
  imports Main
begin

section \<open>The TrustCircles lending contract\<close>

text \<open>
  A shallow embedding of the Solidity contract \<^verbatim>\<open>TrustCircles\<close> (compiler 0.8.20).
  \<^item> \<^verbatim>\<open>uint256\<close> values are natural numbers; Solidity 0.8 checks every \<^verbatim>\<open>+\<close>,
    \<^verbatim>\<open>*\<close> and \<^verbatim>\<open>++\<close> and aborts the call with a panic when the result leaves
    the 256-bit range, which \<open>checked_add\<close> and \<open>checked_mul\<close> write out. The
    subtractions of the contract are all guarded by a comparison.
  \<^item> An address is a natural number, \<^verbatim>\<open>address(0)\<close> is \<open>0\<close>.
  \<^item> A \<^verbatim>\<open>mapping\<close> is a total function: an absent key reads as the all-zero value.
  \<^item> A call either returns the new contract state (\<open>Inr\<close>) or reverts (\<open>Inl\<close>); a
    reverted call leaves the stored state as it was (\<open>exec\<close>).
  \<^item> \<^verbatim>\<open>msg.sender\<close> and \<^verbatim>\<open>block.timestamp\<close> are fields of the call environment;
    \<^verbatim>\<open>msg.value\<close> is an argument of the payable functions only (the compiler
    rejects value sent to the others).
  \<^item> \<^verbatim>\<open>address(this).balance\<close> is the field \<open>balance\<close>; a payable call adds its
    value before the body runs. \<^verbatim>\<open>transfer\<close> fails when the balance is too small or
    when the recipient does not accept the payment (\<open>payable_ok\<close>).
  \<^item> Events carry no state and are left out; the calls of \<^verbatim>\<open>getCircleAverageScore\<close>
    made only to fill an event are kept, since they can panic.
\<close>

subsection \<open>Data\<close>

type_synonym address = nat

datatype error = Revert string | Panic | TransferFailed

record Circle =
  c_id :: nat
  c_name :: string
  c_members :: "address list"
  totalStake :: nat
  createdAt :: nat
  c_isActive :: bool

record MemberData =
  circleId :: nat
  individualScore :: nat
  trustBond :: nat
  totalBorrowed :: nat
  totalRepaid :: nat
  loansCompleted :: nat
  isActive :: bool
  hasActiveLoan :: bool

record Loan =
  l_id :: nat
  borrower :: address
  amount :: nat
  interestAmount :: nat
  totalRepayment :: nat
  requestTime :: nat
  approvalTime :: nat
  disbursementTime :: nat
  dueDate :: nat
  repaymentTime :: nat
  approved :: bool
  disbursed :: bool
  repaid :: bool
  purpose :: string

record state =
  admin :: address
  circleCount :: nat
  loanCount :: nat
  isDemoMode :: bool
  demoLoanDuration :: nat
  circles :: "nat \<Rightarrow> Circle"
  members :: "address \<Rightarrow> MemberData"
  loans :: "nat \<Rightarrow> Loan"
  userLoans :: "address \<Rightarrow> nat list"
  circleExists :: "nat \<Rightarrow> bool"
  balance :: nat

record env =
  sender :: address
  timestamp :: nat
  payable_ok :: "address \<Rightarrow> bool"

subsection \<open>Constants\<close>

definition MAX_UINT :: nat where "MAX_UINT = 2 ^ 256 - 1"
definition ether :: nat where "ether = 1000000000000000000"
definition days :: nat where "days = 86400"
definition minutes :: nat where "minutes = 60"

definition MIN_CIRCLE_MEMBERS :: nat where "MIN_CIRCLE_MEMBERS = 3"
definition STARTING_SCORE :: nat where "STARTING_SCORE = 50"
definition MAX_SCORE :: nat where "MAX_SCORE = 100"
definition MIN_STAKE :: nat where "MIN_STAKE = 500000000000000000"
definition LOAN_DURATION :: nat where "LOAN_DURATION = 7 * days"
definition INDIVIDUAL_WEIGHT :: nat where "INDIVIDUAL_WEIGHT = 60"
definition CIRCLE_WEIGHT :: nat where "CIRCLE_WEIGHT = 40"
definition ON_TIME_BONUS :: nat where "ON_TIME_BONUS = 10"
definition EARLY_BONUS :: nat where "EARLY_BONUS = 15"
definition LATE_PENALTY :: nat where "LATE_PENALTY = 5"
definition VERY_LATE_PENALTY :: nat where "VERY_LATE_PENALTY = 30"
definition DEFAULT_PENALTY :: nat where "DEFAULT_PENALTY = 50"
definition CIRCLE_DEFAULT_PENALTY :: nat where "CIRCLE_DEFAULT_PENALTY = 20"

subsection \<open>Checked arithmetic and transfers\<close>

definition checked_add :: "nat \<Rightarrow> nat \<Rightarrow> error + nat" where
  "checked_add a b = (if a + b \<le> MAX_UINT then Inr (a + b) else Inl Panic)"

definition checked_mul :: "nat \<Rightarrow> nat \<Rightarrow> error + nat" where
  "checked_mul a b = (if a * b \<le> MAX_UINT then Inr (a * b) else Inl Panic)"

text \<open>\<^verbatim>\<open>payable(to).transfer(amt)\<close> on a contract holding \<open>bal\<close>: the balance left.\<close>

definition transfer :: "env \<Rightarrow> nat \<Rightarrow> address \<Rightarrow> nat \<Rightarrow> error + nat" where
  "transfer e bal to amt =
     (if amt \<le> bal \<and> payable_ok e to then Inr (bal - amt) else Inl TransferFailed)"

subsection \<open>Deployment\<close>

definition zero_circle :: Circle where
  "zero_circle = \<lparr>c_id = 0, c_name = [], c_members = [], totalStake = 0, createdAt = 0,
     c_isActive = False\<rparr>"

definition zero_member :: MemberData where
  "zero_member = \<lparr>circleId = 0, individualScore = 0, trustBond = 0, totalBorrowed = 0,
     totalRepaid = 0, loansCompleted = 0, isActive = False, hasActiveLoan = False\<rparr>"

definition zero_loan :: Loan where
  "zero_loan = \<lparr>l_id = 0, borrower = 0, amount = 0, interestAmount = 0, totalRepayment = 0,
     requestTime = 0, approvalTime = 0, disbursementTime = 0, dueDate = 0, repaymentTime = 0,
     approved = False, disbursed = False, repaid = False, purpose = []\<rparr>"

text \<open>The constructor, run by \<open>deployer\<close>: every other variable has its initial value.\<close>

definition constructor :: "address \<Rightarrow> state" where
  "constructor deployer =
     \<lparr>admin = deployer, circleCount = 0, loanCount = 0, isDemoMode = False,
      demoLoanDuration = 7 * minutes, circles = (\<lambda>_. zero_circle),
      members = (\<lambda>_. zero_member), loans = (\<lambda>_. zero_loan), userLoans = (\<lambda>_. []),
      circleExists = (\<lambda>_. False), balance = 0\<rparr>"

subsection \<open>Circle management\<close>

definition createCircle :: "state \<Rightarrow> env \<Rightarrow> nat \<Rightarrow> string \<Rightarrow> error + state" where
  "createCircle s e msg_value name =
     (if \<not> msg_value \<ge> MIN_STAKE then Inl (Revert ''Stake at least 0.5 POL'')
      else if \<not> circleId (members s (sender e)) = 0 then Inl (Revert ''Already in a circle'')
      else if \<not> length name > 0 then Inl (Revert ''Name required'')
      else case checked_add (circleCount s) 1 of
        Inl err \<Rightarrow> Inl err
      | Inr cc \<Rightarrow>
          Inr (s\<lparr>circleCount := cc,
                 circles := (circles s)(cc :=
                   \<lparr>c_id = cc, c_name = name, c_members = [sender e],
                    totalStake = msg_value, createdAt = timestamp e, c_isActive = False\<rparr>),
                 members := (members s)(sender e :=
                   \<lparr>circleId = cc, individualScore = STARTING_SCORE, trustBond = msg_value,
                    totalBorrowed = 0, totalRepaid = 0, loansCompleted = 0, isActive = True,
                    hasActiveLoan = False\<rparr>),
                 circleExists := (circleExists s)(cc := True),
                 balance := balance s + msg_value\<rparr>))"

definition joinCircle :: "state \<Rightarrow> env \<Rightarrow> nat \<Rightarrow> nat \<Rightarrow> error + state" where
  "joinCircle s e msg_value cid =
     (if \<not> msg_value \<ge> MIN_STAKE then Inl (Revert ''Stake at least 0.5 POL'')
      else if \<not> circleId (members s (sender e)) = 0 then Inl (Revert ''Already in a circle'')
      else if \<not> circleExists s cid then Inl (Revert ''Circle doesn't exist'')
      else if \<not> length (c_members (circles s cid)) < 10 then Inl (Revert ''Circle full'')
      else case checked_add (totalStake (circles s cid)) msg_value of
        Inl err \<Rightarrow> Inl err
      | Inr stake \<Rightarrow>
          (let ms = c_members (circles s cid) @ [sender e];
               circle = (circles s cid)\<lparr>c_members := ms, totalStake := stake\<rparr>;
               circle' = (if length ms \<ge> MIN_CIRCLE_MEMBERS \<and> \<not> c_isActive circle
                          then circle\<lparr>c_isActive := True\<rparr> else circle)
           in Inr (s\<lparr>circles := (circles s)(cid := circle'),
                      members := (members s)(sender e :=
                        \<lparr>circleId = cid, individualScore = STARTING_SCORE,
                         trustBond = msg_value, totalBorrowed = 0, totalRepaid = 0,
                         loansCompleted = 0, isActive = True, hasActiveLoan = False\<rparr>),
                      balance := balance s + msg_value\<rparr>)))"

subsection \<open>Score calculations\<close>

text \<open>The loop of \<^verbatim>\<open>getCircleAverageScore\<close>, with its running total.\<close>

fun sumScores :: "(address \<Rightarrow> MemberData) \<Rightarrow> address list \<Rightarrow> nat \<Rightarrow> error + nat" where
  "sumScores m [] totalScore = Inr totalScore"
| "sumScores m (a # as) totalScore =
     (let score = (if individualScore (m a) > 0 then individualScore (m a) else STARTING_SCORE)
      in case checked_add totalScore score of
           Inl err \<Rightarrow> Inl err
         | Inr t \<Rightarrow> sumScores m as t)"

definition getCircleAverageScore :: "state \<Rightarrow> nat \<Rightarrow> error + nat" where
  "getCircleAverageScore s cid =
     (let ms = c_members (circles s cid)
      in if length ms = 0 then Inr STARTING_SCORE
         else case sumScores (members s) ms 0 of
                Inl err \<Rightarrow> Inl err
              | Inr totalScore \<Rightarrow> Inr (totalScore div length ms))"

definition getTrustScore :: "state \<Rightarrow> address \<Rightarrow> error + nat" where
  "getTrustScore s user =
     (let member = members s user;
          individual = (if individualScore member > 0 then individualScore member
                        else STARTING_SCORE)
      in if circleId member = 0 then Inr individual
         else if \<not> c_isActive (circles s (circleId member)) then Inr individual
         else case getCircleAverageScore s (circleId member) of
           Inl err \<Rightarrow> Inl err
         | Inr circleAverage \<Rightarrow>
            (case checked_mul individual INDIVIDUAL_WEIGHT of
               Inl err \<Rightarrow> Inl err
             | Inr x \<Rightarrow>
                (case checked_mul circleAverage CIRCLE_WEIGHT of
                   Inl err \<Rightarrow> Inl err
                 | Inr y \<Rightarrow>
                    (case checked_add x y of
                       Inl err \<Rightarrow> Inl err
                     | Inr z \<Rightarrow> Inr (z div 100)))))"

definition getMaxLoanAmount :: "state \<Rightarrow> address \<Rightarrow> error + nat" where
  "getMaxLoanAmount s user =
     (case getTrustScore s user of
        Inl err \<Rightarrow> Inl err
      | Inr score \<Rightarrow>
          if score < 60 then Inr (10 * ether)
          else if score < 70 then Inr (20 * ether)
          else if score < 80 then Inr (50 * ether)
          else if score < 90 then Inr (100 * ether)
          else Inr (200 * ether))"

definition getInterestRate :: "state \<Rightarrow> address \<Rightarrow> error + nat" where
  "getInterestRate s user =
     (case getTrustScore s user of
        Inl err \<Rightarrow> Inl err
      | Inr score \<Rightarrow>
          if score < 60 then Inr 6
          else if score < 70 then Inr 4
          else if score < 80 then Inr 4
          else if score < 90 then Inr 2
          else Inr 2)"

subsection \<open>Loan management\<close>

definition requestLoan :: "state \<Rightarrow> env \<Rightarrow> nat \<Rightarrow> string \<Rightarrow> error + state" where
  "requestLoan s e amt purp =
     (if \<not> isActive (members s (sender e)) then Inl (Revert ''Account frozen'')
      else if \<not> circleId (members s (sender e)) > 0 then Inl (Revert ''Not in a circle'')
      else if \<not> c_isActive (circles s (circleId (members s (sender e))))
        then Inl (Revert ''Circle not active'')
      else if \<not> \<not> hasActiveLoan (members s (sender e))
        then Inl (Revert ''Already have active loan'')
      else if \<not> amt > 0 then Inl (Revert ''Amount must be greater than 0'')
      else if \<not> length purp > 0 then Inl (Revert ''Purpose required'')
      else case getMaxLoanAmount s (sender e) of
        Inl err \<Rightarrow> Inl err
      | Inr maxAmount \<Rightarrow>
          if \<not> amt \<le> maxAmount then Inl (Revert ''Amount exceeds limit'')
          else case getInterestRate s (sender e) of
            Inl err \<Rightarrow> Inl err
          | Inr interestRate \<Rightarrow>
             (case checked_mul amt interestRate of
                Inl err \<Rightarrow> Inl err
              | Inr pr \<Rightarrow>
                 (let interest = pr div 100
                  in case checked_add amt interest of
                    Inl err \<Rightarrow> Inl err
                  | Inr tot \<Rightarrow>
                     (case checked_add (loanCount s) 1 of
                        Inl err \<Rightarrow> Inl err
                      | Inr lc \<Rightarrow>
                          Inr (s\<lparr>loanCount := lc,
                                 loans := (loans s)(lc :=
                                   \<lparr>l_id = lc, borrower = sender e, amount = amt,
                                    interestAmount = interest, totalRepayment = tot,
                                    requestTime = timestamp e, approvalTime = 0,
                                    disbursementTime = 0, dueDate = 0, repaymentTime = 0,
                                    approved = False, disbursed = False, repaid = False,
                                    purpose = purp\<rparr>),
                                 userLoans := (userLoans s)(sender e :=
                                   userLoans s (sender e) @ [lc]),
                                 members := (members s)(sender e :=
                                   (members s (sender e))\<lparr>hasActiveLoan := True\<rparr>)\<rparr>)))))"

definition approveLoan :: "state \<Rightarrow> env \<Rightarrow> nat \<Rightarrow> error + state" where
  "approveLoan s e loanId =
     (let loan = loans s loanId in
      if \<not> sender e = admin s then Inl (Revert ''Only admin'')
      else if \<not> borrower loan \<noteq> 0 then Inl (Revert ''Loan doesn't exist'')
      else if \<not> \<not> approved loan then Inl (Revert ''Already approved'')
      else if \<not> \<not> disbursed loan then Inl (Revert ''Already disbursed'')
      else if \<not> balance s \<ge> amount loan then Inl (Revert ''Insufficient contract balance'')
      else case checked_add (timestamp e)
                  (if isDemoMode s then demoLoanDuration s else LOAN_DURATION) of
        Inl err \<Rightarrow> Inl err
      | Inr due \<Rightarrow>
         (case checked_add (totalBorrowed (members s (borrower loan))) (amount loan) of
            Inl err \<Rightarrow> Inl err
          | Inr tb \<Rightarrow>
             (case transfer e (balance s) (borrower loan) (amount loan) of
                Inl err \<Rightarrow> Inl err
              | Inr bal \<Rightarrow>
                  Inr (s\<lparr>loans := (loans s)(loanId :=
                           loan\<lparr>approved := True, approvalTime := timestamp e,
                                disbursed := True, disbursementTime := timestamp e,
                                dueDate := due\<rparr>),
                         members := (members s)(borrower loan :=
                           (members s (borrower loan))\<lparr>totalBorrowed := tb\<rparr>),
                         balance := bal\<rparr>))))"

definition disburseLoan :: "state \<Rightarrow> env \<Rightarrow> nat \<Rightarrow> nat \<Rightarrow> error + state" where
  "disburseLoan s e msg_value loanId =
     (let loan = loans s loanId in
      if \<not> sender e = admin s then Inl (Revert ''Only admin'')
      else if \<not> approved loan then Inl (Revert ''Not approved'')
      else if \<not> \<not> disbursed loan then Inl (Revert ''Already disbursed'')
      else if \<not> msg_value = amount loan then Inl (Revert ''Incorrect amount'')
      else case checked_add (timestamp e)
                  (if isDemoMode s then demoLoanDuration s else LOAN_DURATION) of
        Inl err \<Rightarrow> Inl err
      | Inr due \<Rightarrow>
         (case checked_add (totalBorrowed (members s (borrower loan))) (amount loan) of
            Inl err \<Rightarrow> Inl err
          | Inr tb \<Rightarrow>
             (case transfer e (balance s + msg_value) (borrower loan) (amount loan) of
                Inl err \<Rightarrow> Inl err
              | Inr bal \<Rightarrow>
                  Inr (s\<lparr>loans := (loans s)(loanId :=
                           loan\<lparr>disbursed := True, disbursementTime := timestamp e,
                                dueDate := due\<rparr>),
                         members := (members s)(borrower loan :=
                           (members s (borrower loan))\<lparr>totalBorrowed := tb\<rparr>),
                         balance := bal\<rparr>))))"

definition calculateCreditBonus :: "nat \<Rightarrow> nat \<Rightarrow> error + nat" where
  "calculateCreditBonus due repayTime =
     (if repayTime < due then Inr EARLY_BONUS
      else case checked_add due (3 * days) of
        Inl err \<Rightarrow> Inl err
      | Inr d3 \<Rightarrow>
          if repayTime \<le> d3 then Inr ON_TIME_BONUS
          else case checked_add due (7 * days) of
            Inl err \<Rightarrow> Inl err
          | Inr d7 \<Rightarrow> if repayTime \<le> d7 then Inr LATE_PENALTY else Inr 0)"

definition updateScoresOnRepayment :: "state \<Rightarrow> address \<Rightarrow> nat \<Rightarrow> error + state" where
  "updateScoresOnRepayment s b creditBonus =
     (case (if creditBonus > 0
            then (case checked_add (individualScore (members s b)) creditBonus of
                    Inl err \<Rightarrow> Inl err
                  | Inr sc \<Rightarrow>
                      Inr (s\<lparr>members := (members s)(b :=
                             (members s b)\<lparr>individualScore :=
                                (if sc > MAX_SCORE then MAX_SCORE else sc)\<rparr>)\<rparr>))
            else Inr s) of
        Inl err \<Rightarrow> Inl err
      | Inr s1 \<Rightarrow>
          if circleId (members s1 b) > 0
          then (case getCircleAverageScore s1 (circleId (members s1 b)) of
                  Inl err \<Rightarrow> Inl err
                | Inr newAverage \<Rightarrow> Inr s1)
          else Inr s1)"

definition repayLoan :: "state \<Rightarrow> env \<Rightarrow> nat \<Rightarrow> nat \<Rightarrow> error + state" where
  "repayLoan s e msg_value loanId =
     (let loan = loans s loanId in
      if \<not> borrower loan = sender e then Inl (Revert ''Not your loan'')
      else if \<not> disbursed loan then Inl (Revert ''Not disbursed yet'')
      else if \<not> \<not> repaid loan then Inl (Revert ''Already repaid'')
      else if \<not> msg_value = totalRepayment loan then Inl (Revert ''Incorrect amount'')
      else case checked_add (totalRepaid (members s (sender e))) (totalRepayment loan) of
        Inl err \<Rightarrow> Inl err
      | Inr tr \<Rightarrow>
         (case checked_add (loansCompleted (members s (sender e))) 1 of
            Inl err \<Rightarrow> Inl err
          | Inr lc \<Rightarrow>
             (case calculateCreditBonus (dueDate loan) (timestamp e) of
                Inl err \<Rightarrow> Inl err
              | Inr creditBonus \<Rightarrow>
                  updateScoresOnRepayment
                    (s\<lparr>loans := (loans s)(loanId :=
                          loan\<lparr>repaid := True, repaymentTime := timestamp e\<rparr>),
                        members := (members s)(sender e :=
                          (members s (sender e))\<lparr>totalRepaid := tr, loansCompleted := lc,
                             hasActiveLoan := False\<rparr>),
                        balance := balance s + msg_value\<rparr>)
                    (sender e) creditBonus)))"

subsection \<open>Default penalties\<close>

text \<open>The loop of \<^verbatim>\<open>_penalizeCircle\<close> over the circle's member array.\<close>

fun penalizeMembers ::
  "address list \<Rightarrow> address \<Rightarrow> (address \<Rightarrow> MemberData) \<Rightarrow> (address \<Rightarrow> MemberData)" where
  "penalizeMembers [] defaulter m = m"
| "penalizeMembers (a # as) defaulter m =
     penalizeMembers as defaulter
       (if a \<noteq> defaulter
        then m(a := (m a)\<lparr>individualScore :=
               (if individualScore (m a) \<ge> CIRCLE_DEFAULT_PENALTY
                then individualScore (m a) - CIRCLE_DEFAULT_PENALTY else 0)\<rparr>)
        else m)"

definition penalizeCircle :: "state \<Rightarrow> nat \<Rightarrow> address \<Rightarrow> error + state" where
  "penalizeCircle s cid defaulter =
     (let s1 = s\<lparr>members := penalizeMembers (c_members (circles s cid)) defaulter (members s)\<rparr>
      in case getCircleAverageScore s1 cid of
           Inl err \<Rightarrow> Inl err
         | Inr newAverage \<Rightarrow> Inr s1)"

definition penalizeDefault :: "state \<Rightarrow> env \<Rightarrow> nat \<Rightarrow> error + state" where
  "penalizeDefault s e loanId =
     (let loan = loans s loanId in
      if \<not> sender e = admin s then Inl (Revert ''Only admin'')
      else if \<not> disbursed loan then Inl (Revert ''Not disbursed'')
      else if \<not> \<not> repaid loan then Inl (Revert ''Already repaid'')
      else case checked_add (dueDate loan) (14 * days) of
        Inl err \<Rightarrow> Inl err
      | Inr limit \<Rightarrow>
          if \<not> timestamp e > limit then Inl (Revert ''Not overdue enough'')
          else
            (let b = borrower loan;
                 member = members s b;
                 member' = member\<lparr>individualScore :=
                             (if individualScore member \<ge> DEFAULT_PENALTY
                              then individualScore member - DEFAULT_PENALTY else 0),
                            isActive := False\<rparr>;
                 s1 = s\<lparr>members := (members s)(b := member')\<rparr>
             in if circleId member' > 0 then penalizeCircle s1 (circleId member') b
                else Inr s1))"

subsection \<open>Admin functions\<close>

definition setDemoMode :: "state \<Rightarrow> env \<Rightarrow> bool \<Rightarrow> error + state" where
  "setDemoMode s e enabled =
     (if \<not> sender e = admin s then Inl (Revert ''Only admin'')
      else Inr (s\<lparr>isDemoMode := enabled\<rparr>))"

definition setDemoLoanDuration :: "state \<Rightarrow> env \<Rightarrow> nat \<Rightarrow> error + state" where
  "setDemoLoanDuration s e duration =
     (if \<not> sender e = admin s then Inl (Revert ''Only admin'')
      else Inr (s\<lparr>demoLoanDuration := duration\<rparr>))"

definition depositLiquidity :: "state \<Rightarrow> env \<Rightarrow> nat \<Rightarrow> error + state" where
  "depositLiquidity s e msg_value =
     (if \<not> sender e = admin s then Inl (Revert ''Only admin'')
      else if \<not> msg_value > 0 then Inl (Revert ''Must deposit some amount'')
      else Inr (s\<lparr>balance := balance s + msg_value\<rparr>))"

definition withdraw :: "state \<Rightarrow> env \<Rightarrow> nat \<Rightarrow> error + state" where
  "withdraw s e amt =
     (if \<not> sender e = admin s then Inl (Revert ''Only admin'')
      else if \<not> amt > 0 then Inl (Revert ''Amount must be greater than 0'')
      else if \<not> balance s \<ge> amt then Inl (Revert ''Insufficient balance'')
      else case transfer e (balance s) (admin s) amt of
        Inl err \<Rightarrow> Inl err
      | Inr bal \<Rightarrow> Inr (s\<lparr>balance := bal\<rparr>))"

definition unfreezeAccount :: "state \<Rightarrow> env \<Rightarrow> address \<Rightarrow> error + state" where
  "unfreezeAccount s e user =
     (if \<not> sender e = admin s then Inl (Revert ''Only admin'')
      else Inr (s\<lparr>members := (members s)(user := (members s user)\<lparr>isActive := True\<rparr>)\<rparr>))"

definition transferAdmin :: "state \<Rightarrow> env \<Rightarrow> address \<Rightarrow> error + state" where
  "transferAdmin s e newAdmin =
     (if \<not> sender e = admin s then Inl (Revert ''Only admin'')
      else if \<not> newAdmin \<noteq> 0 then Inl (Revert ''Invalid address'')
      else Inr (s\<lparr>admin := newAdmin\<rparr>))"

text \<open>\<^verbatim>\<open>receive() external payable {}\<close>: a plain payment to the contract.\<close>

definition receive :: "state \<Rightarrow> env \<Rightarrow> nat \<Rightarrow> error + state" where
  "receive s e msg_value = Inr (s\<lparr>balance := balance s + msg_value\<rparr>)"

subsection \<open>Transactions\<close>

datatype call =
    CreateCircle nat string
  | JoinCircle nat nat
  | RequestLoan nat string
  | ApproveLoan nat
  | DisburseLoan nat nat
  | RepayLoan nat nat
  | PenalizeDefault nat
  | SetDemoMode bool
  | SetDemoLoanDuration nat
  | DepositLiquidity nat
  | Withdraw nat
  | UnfreezeAccount address
  | TransferAdmin address
  | Receive nat

text \<open>For the payable functions the first argument of the call is \<^verbatim>\<open>msg.value\<close>.\<close>

fun step :: "state \<Rightarrow> env \<Rightarrow> call \<Rightarrow> error + state" where
  "step s e (CreateCircle v name) = createCircle s e v name"
| "step s e (JoinCircle v cid) = joinCircle s e v cid"
| "step s e (RequestLoan amt purp) = requestLoan s e amt purp"
| "step s e (ApproveLoan loanId) = approveLoan s e loanId"
| "step s e (DisburseLoan v loanId) = disburseLoan s e v loanId"
| "step s e (RepayLoan v loanId) = repayLoan s e v loanId"
| "step s e (PenalizeDefault loanId) = penalizeDefault s e loanId"
| "step s e (SetDemoMode enabled) = setDemoMode s e enabled"
| "step s e (SetDemoLoanDuration d) = setDemoLoanDuration s e d"
| "step s e (DepositLiquidity v) = depositLiquidity s e v"
| "step s e (Withdraw amt) = withdraw s e amt"
| "step s e (UnfreezeAccount user) = unfreezeAccount s e user"
| "step s e (TransferAdmin newAdmin) = transferAdmin s e newAdmin"
| "step s e (Receive v) = receive s e v"

text \<open>A transaction: a call that reverts leaves the stored state untouched.\<close>

definition exec :: "state \<Rightarrow> env \<times> call \<Rightarrow> state" where
  "exec s tx = (case step s (fst tx) (snd tx) of Inl err \<Rightarrow> s | Inr s' \<Rightarrow> s')"

definition run :: "state \<Rightarrow> (env \<times> call) list \<Rightarrow> state" where
  "run s txs = foldl exec s txs"

text \<open>The states the deployed contract can be in: any sequence of transactions, by any
  senders, at any timestamps, after the constructor.\<close>

inductive reachable :: "state \<Rightarrow> bool" where
  reachable_init: "reachable (constructor deployer)"
| reachable_step: "reachable s \<Longrightarrow> step s e c = Inr s' \<Longrightarrow> reachable s'"

subsection \<open>Invariants of the reachable states\<close>

text \<open>A loan id is in use once \<^verbatim>\<open>loanCount\<close> has reached it.\<close>

definition loanExists :: "state \<Rightarrow> nat \<Rightarrow> bool" where
  "loanExists s i = (1 \<le> i \<and> i \<le> loanCount s)"

definition inv_score :: "state \<Rightarrow> bool" where
  "inv_score s = (\<forall>a. individualScore (members s a) \<le> MAX_SCORE)"

definition inv_approved :: "state \<Rightarrow> bool" where
  "inv_approved s = (\<forall>i. approved (loans s i) \<longrightarrow> disbursed (loans s i))"

definition inv_circles :: "state \<Rightarrow> bool" where
  "inv_circles s =
     ((\<forall>c. circleExists s c = (1 \<le> c \<and> c \<le> circleCount s)) \<and>
      (\<forall>c. \<not> circleExists s c \<longrightarrow> c_members (circles s c) = []) \<and>
      (\<forall>c. c_isActive (circles s c) = (3 \<le> length (c_members (circles s c)))) \<and>
      (\<forall>c. length (c_members (circles s c)) \<le> 10) \<and>
      (\<forall>c. distinct (c_members (circles s c))) \<and>
      (\<forall>c a. a \<in> set (c_members (circles s c)) \<longrightarrow> circleId (members s a) = c))"

definition inv_loans :: "state \<Rightarrow> bool" where
  "inv_loans s =
     ((\<forall>i. \<not> loanExists s i \<longrightarrow>
          \<not> disbursed (loans s i) \<and> \<not> approved (loans s i) \<and> borrower (loans s i) = 0) \<and>
      (\<forall>i. loanExists s i \<and> \<not> repaid (loans s i) \<longrightarrow>
          hasActiveLoan (members s (borrower (loans s i))) \<and>
          0 < circleId (members s (borrower (loans s i)))) \<and>
      (\<forall>i j. loanExists s i \<and> loanExists s j \<and> \<not> repaid (loans s i) \<and> \<not> repaid (loans s j) \<and>
          borrower (loans s i) = borrower (loans s j) \<longrightarrow> i = j))"

text \<open>All of them together.\<close>

definition inv :: "state \<Rightarrow> bool" where
  "inv s = (inv_score s \<and> inv_approved s \<and> inv_circles s \<and> inv_loans s)"

subsection \<open>States funded by stakes alone\<close>





subsection \<open>A concrete run\<close>

text \<open>
  The states of one run of the contract, written out, for evaluating the theorems at
  concrete inputs. Address 100 deploys the contract; 11 creates the circle ``savers'' and
  12 and 13 join it, each with a stake of one ether; 11 requests a loan of one ether,
  which the admin approves at time 3000, so it is due at 607800. From there, either 11
  repays one second early (\<open>s6\<close>), or the admin penalizes the default once
  (\<open>s7\<close>) and a second time (\<open>s8\<close>). Every recipient accepts payments.
\<close>

definition call_by :: "address \<Rightarrow> nat \<Rightarrow> env" where
  "call_by a t = \<lparr>sender = a, timestamp = t, payable_ok = (\<lambda>_. True)\<rparr>"

definition joined :: "nat \<Rightarrow> MemberData" where
  "joined score = \<lparr>circleId = 1, individualScore = score, trustBond = ether, totalBorrowed = 0,
     totalRepaid = 0, loansCompleted = 0, isActive = True, hasActiveLoan = False\<rparr>"

definition savers :: "address list \<Rightarrow> nat \<Rightarrow> bool \<Rightarrow> Circle" where
  "savers ms stake active = \<lparr>c_id = 1, c_name = ''savers'', c_members = ms, totalStake = stake,
     createdAt = 1000, c_isActive = active\<rparr>"

definition seed_loan :: Loan where
  "seed_loan = \<lparr>l_id = 1, borrower = 11, amount = ether, interestAmount = 60000000000000000,
     totalRepayment = 1060000000000000000, requestTime = 2000, approvalTime = 0,
     disbursementTime = 0, dueDate = 0, repaymentTime = 0, approved = False, disbursed = False,
     repaid = False, purpose = ''seed''\<rparr>"

definition s0 :: state where "s0 = constructor 100"

definition s1 :: state where
  "s1 = s0\<lparr>circleCount := 1, circles := (\<lambda>_. zero_circle)(1 := savers [11] ether False),
     members := (\<lambda>_. zero_member)(11 := joined 50),
     circleExists := (\<lambda>_. False)(1 := True), balance := ether\<rparr>"

definition s2 :: state where
  "s2 = s0\<lparr>circleCount := 1, circles := (\<lambda>_. zero_circle)(1 := savers [11, 12] (2 * ether) False),
     members := (\<lambda>_. zero_member)(11 := joined 50, 12 := joined 50),
     circleExists := (\<lambda>_. False)(1 := True), balance := 2 * ether\<rparr>"

definition s3 :: state where
  "s3 = s0\<lparr>circleCount := 1,
     circles := (\<lambda>_. zero_circle)(1 := savers [11, 12, 13] (3 * ether) True),
     members := (\<lambda>_. zero_member)(11 := joined 50, 12 := joined 50, 13 := joined 50),
     circleExists := (\<lambda>_. False)(1 := True), balance := 3 * ether\<rparr>"

definition s4 :: state where
  "s4 = s3\<lparr>loanCount := 1, loans := (\<lambda>_. zero_loan)(1 := seed_loan),
     userLoans := (\<lambda>_. [])(11 := [1]),
     members := (\<lambda>_. zero_member)(11 := (joined 50)\<lparr>hasActiveLoan := True\<rparr>,
        12 := joined 50, 13 := joined 50)\<rparr>"

definition s5 :: state where
  "s5 = s4\<lparr>loans := (\<lambda>_. zero_loan)(1 := seed_loan\<lparr>approved := True, approvalTime := 3000,
        disbursed := True, disbursementTime := 3000, dueDate := 607800\<rparr>),
     members := (\<lambda>_. zero_member)(11 := (joined 50)\<lparr>hasActiveLoan := True,
        totalBorrowed := ether\<rparr>, 12 := joined 50, 13 := joined 50),
     balance := 2 * ether\<rparr>"

definition s6 :: state where
  "s6 = s5\<lparr>loans := (\<lambda>_. zero_loan)(1 := seed_loan\<lparr>approved := True, approvalTime := 3000,
        disbursed := True, disbursementTime := 3000, dueDate := 607800, repaid := True,
        repaymentTime := 607799\<rparr>),
     members := (\<lambda>_. zero_member)(11 := (joined 65)\<lparr>totalBorrowed := ether,
        totalRepaid := 1060000000000000000, loansCompleted := 1\<rparr>,
        12 := joined 50, 13 := joined 50),
     balance := 3060000000000000000\<rparr>"

definition s7 :: state where
  "s7 = s5\<lparr>members := (\<lambda>_. zero_member)(11 := (joined 0)\<lparr>hasActiveLoan := True,
        totalBorrowed := ether, isActive := False\<rparr>, 12 := joined 30, 13 := joined 30)\<rparr>"

definition s8 :: state where
  "s8 = s5\<lparr>members := (\<lambda>_. zero_member)(11 := (joined 0)\<lparr>hasActiveLoan := True,
        totalBorrowed := ether, isActive := False\<rparr>, 12 := joined 10, 13 := joined 10)\<rparr>"

text \<open>
  A state that no run produces: \<open>s4\<close> with its loan marked approved but not
  disbursed, and what \<open>disburseLoan\<close> makes of it.
\<close>

definition s4_approved :: state where
  "s4_approved = s4\<lparr>loans := (\<lambda>_. zero_loan)(1 := seed_loan\<lparr>approved := True\<rparr>)\<rparr>"

definition s4_disbursed :: state where
  "s4_disbursed = s4\<lparr>loans := (\<lambda>_. zero_loan)(1 := seed_loan\<lparr>approved := True,
        disbursed := True, disbursementTime := 3000, dueDate := 607800\<rparr>),
     members := (\<lambda>_. zero_member)(11 := (joined 50)\<lparr>hasActiveLoan := True,
        totalBorrowed := ether\<rparr>, 12 := joined 50, 13 := joined 50)\<rparr>"


section \<open>Invariant proofs\<close>

lemmas const_defs =
  MAX_UINT_def ether_def days_def minutes_def MIN_CIRCLE_MEMBERS_def STARTING_SCORE_def
  MAX_SCORE_def MIN_STAKE_def LOAN_DURATION_def INDIVIDUAL_WEIGHT_def CIRCLE_WEIGHT_def
  ON_TIME_BONUS_def EARLY_BONUS_def LATE_PENALTY_def VERY_LATE_PENALTY_def
  DEFAULT_PENALTY_def CIRCLE_DEFAULT_PENALTY_def

lemma penalizeMembers_score_le:
  "individualScore (penalizeMembers as d m a) \<le> individualScore (m a)"
proof (induction as arbitrary: m)
  case Nil
  show ?case by simp
next
  case (Cons b as)
  let ?m' = "(if b \<noteq> d
        then m(b := (m b)\<lparr>individualScore :=
               (if individualScore (m b) \<ge> CIRCLE_DEFAULT_PENALTY
                then individualScore (m b) - CIRCLE_DEFAULT_PENALTY else 0)\<rparr>)
        else m)"
  have "individualScore (penalizeMembers as d ?m' a) \<le> individualScore (?m' a)"
    by (rule Cons.IH)
  also have "individualScore (?m' a) \<le> individualScore (m a)" by simp
  finally show ?case by simp
qed

lemma penalizeMembers_bound:
  "\<forall>a. individualScore (m a) \<le> k \<Longrightarrow> individualScore (penalizeMembers as d m a) \<le> k"
  using penalizeMembers_score_le [of as d m a] by (meson le_trans)

text \<open>The loop only ever writes the score field.\<close>

lemma penalizeMembers_frame:
  "penalizeMembers as d m a =
     (m a)\<lparr>individualScore := individualScore (penalizeMembers as d m a)\<rparr>"
proof (induction as arbitrary: m)
  case Nil
  show ?case by simp
next
  case (Cons b as)
  let ?m' = "(if b \<noteq> d
        then m(b := (m b)\<lparr>individualScore :=
               (if individualScore (m b) \<ge> CIRCLE_DEFAULT_PENALTY
                then individualScore (m b) - CIRCLE_DEFAULT_PENALTY else 0)\<rparr>)
        else m)"
  have "penalizeMembers as d ?m' a =
     (?m' a)\<lparr>individualScore := individualScore (penalizeMembers as d ?m' a)\<rparr>"
    by (rule Cons.IH)
  moreover have "(?m' a)\<lparr>individualScore := x\<rparr> = (m a)\<lparr>individualScore := x\<rparr>" for x
    by simp
  ultimately show ?case by simp
qed

lemma penalizeMembers_fields [simp]:
  "circleId (penalizeMembers as d m a) = circleId (m a)"
  "isActive (penalizeMembers as d m a) = isActive (m a)"
  "hasActiveLoan (penalizeMembers as d m a) = hasActiveLoan (m a)"
  "totalBorrowed (penalizeMembers as d m a) = totalBorrowed (m a)"
  by (subst penalizeMembers_frame, simp)+

lemma penalizeMembers_apply:
  "distinct as \<Longrightarrow>
   penalizeMembers as d m a =
     (if a \<in> set as \<and> a \<noteq> d
      then (m a)\<lparr>individualScore :=
             (if individualScore (m a) \<ge> CIRCLE_DEFAULT_PENALTY
              then individualScore (m a) - CIRCLE_DEFAULT_PENALTY else 0)\<rparr>
      else m a)"
  by (induction as arbitrary: m) auto

lemmas op_defs = createCircle_def joinCircle_def requestLoan_def approveLoan_def
  disburseLoan_def repayLoan_def penalizeDefault_def setDemoMode_def
  setDemoLoanDuration_def depositLiquidity_def withdraw_def unfreezeAccount_def
  transferAdmin_def receive_def

lemma nat_diff_bound: "(x::nat) \<le> k \<Longrightarrow> x - p \<le> k"
  by simp

subsection \<open>What a successful call did\<close>

lemma case_sum_Inr_iff:
  "((case x of Inl err \<Rightarrow> Inl err | Inr v \<Rightarrow> f v) = Inr r) = (\<exists>v. x = Inr v \<and> f v = Inr r)"
  by (cases x) simp_all

lemma if_Inl_Inr_iff:
  "((if c then Inl err else x) = Inr r) = (\<not> c \<and> x = Inr r)"
  by simp

lemma checked_add_Inr_iff:
  "(checked_add a b = Inr c) = (a + b \<le> MAX_UINT \<and> c = a + b)"
  by (auto simp: checked_add_def)

lemma checked_mul_Inr_iff:
  "(checked_mul a b = Inr c) = (a * b \<le> MAX_UINT \<and> c = a * b)"
  by (auto simp: checked_mul_def)

lemma transfer_Inr_iff:
  "(transfer e bal to amt = Inr b) = (amt \<le> bal \<and> payable_ok e to \<and> b = bal - amt)"
  by (auto simp: transfer_def)

lemmas bind_simps = case_sum_Inr_iff if_Inl_Inr_iff checked_add_Inr_iff checked_mul_Inr_iff
  transfer_Inr_iff


lemma createCircle_InrD:
  assumes "createCircle s e v name = Inr s'"
  shows "MIN_STAKE \<le> v \<and> circleId (members s (sender e)) = 0 \<and> name \<noteq> [] \<and>
     circleCount s < MAX_UINT \<and>
     s' = s\<lparr>circleCount := Suc (circleCount s),
            circles := (circles s)(Suc (circleCount s) :=
               \<lparr>c_id = Suc (circleCount s), c_name = name, c_members = [sender e],
                totalStake = v, createdAt = timestamp e, c_isActive = False\<rparr>),
            members := (members s)(sender e :=
               \<lparr>circleId = Suc (circleCount s), individualScore = STARTING_SCORE,
                trustBond = v, totalBorrowed = 0, totalRepaid = 0, loansCompleted = 0,
                isActive = True, hasActiveLoan = False\<rparr>),
            circleExists := (circleExists s)(Suc (circleCount s) := True),
            balance := balance s + v\<rparr>"
  using assms by (auto simp: createCircle_def bind_simps)

lemma joinCircle_InrD:
  assumes "joinCircle s e v cid = Inr s'"
  shows "MIN_STAKE \<le> v \<and> circleId (members s (sender e)) = 0 \<and> circleExists s cid \<and>
     length (c_members (circles s cid)) < 10 \<and> totalStake (circles s cid) + v \<le> MAX_UINT \<and>
     s' = s\<lparr>circles := (circles s)(cid :=
               (if 2 \<le> length (c_members (circles s cid)) \<and> \<not> c_isActive (circles s cid)
                then (circles s cid)\<lparr>c_members := c_members (circles s cid) @ [sender e],
                  totalStake := totalStake (circles s cid) + v, c_isActive := True\<rparr>
                else (circles s cid)\<lparr>c_members := c_members (circles s cid) @ [sender e],
                  totalStake := totalStake (circles s cid) + v\<rparr>)),
            members := (members s)(sender e :=
               \<lparr>circleId = cid, individualScore = STARTING_SCORE,
                trustBond = v, totalBorrowed = 0, totalRepaid = 0, loansCompleted = 0,
                isActive = True, hasActiveLoan = False\<rparr>),
            balance := balance s + v\<rparr>"
  using assms
  by (auto simp: joinCircle_def Let_def MIN_CIRCLE_MEMBERS_def bind_simps)

lemma requestLoan_InrD:
  assumes "requestLoan s e amt purp = Inr s'"
  shows "isActive (members s (sender e)) \<and> 0 < circleId (members s (sender e)) \<and>
     c_isActive (circles s (circleId (members s (sender e)))) \<and>
     \<not> hasActiveLoan (members s (sender e)) \<and> 0 < amt \<and> purp \<noteq> [] \<and>
     loanCount s < MAX_UINT \<and>
     (\<exists>maxAmount rate.
        getMaxLoanAmount s (sender e) = Inr maxAmount \<and> amt \<le> maxAmount \<and>
        getInterestRate s (sender e) = Inr rate \<and> amt * rate \<le> MAX_UINT \<and>
        amt + amt * rate div 100 \<le> MAX_UINT \<and>
        s' = s\<lparr>loanCount := Suc (loanCount s),
               loans := (loans s)(Suc (loanCount s) :=
                  \<lparr>l_id = Suc (loanCount s), borrower = sender e, amount = amt,
                   interestAmount = amt * rate div 100,
                   totalRepayment = amt + amt * rate div 100,
                   requestTime = timestamp e, approvalTime = 0,
                   disbursementTime = 0, dueDate = 0, repaymentTime = 0,
                   approved = False, disbursed = False, repaid = False,
                   purpose = purp\<rparr>),
               userLoans := (userLoans s)(sender e :=
                  userLoans s (sender e) @ [Suc (loanCount s)]),
               members := (members s)(sender e :=
                  (members s (sender e))\<lparr>hasActiveLoan := True\<rparr>)\<rparr>)"
  using assms
  by (auto simp: requestLoan_def Let_def bind_simps)

lemma approveLoan_InrD:
  assumes "approveLoan s e i = Inr s'"
  shows "sender e = admin s \<and> borrower (loans s i) \<noteq> 0 \<and> \<not> approved (loans s i) \<and>
     \<not> disbursed (loans s i) \<and> amount (loans s i) \<le> balance s \<and>
     payable_ok e (borrower (loans s i)) \<and>
     timestamp e + (if isDemoMode s then demoLoanDuration s else LOAN_DURATION) \<le> MAX_UINT \<and>
     totalBorrowed (members s (borrower (loans s i))) + amount (loans s i) \<le> MAX_UINT \<and>
     s' = s\<lparr>loans := (loans s)(i :=
               (loans s i)\<lparr>approved := True, approvalTime := timestamp e,
                  disbursed := True, disbursementTime := timestamp e,
                  dueDate := timestamp e +
                    (if isDemoMode s then demoLoanDuration s else LOAN_DURATION)\<rparr>),
            members := (members s)(borrower (loans s i) :=
               (members s (borrower (loans s i)))\<lparr>totalBorrowed :=
                  totalBorrowed (members s (borrower (loans s i))) + amount (loans s i)\<rparr>),
            balance := balance s - amount (loans s i)\<rparr>"
  using assms
  by (auto simp: approveLoan_def Let_def bind_simps)

lemma disburseLoan_InrD:
  assumes "disburseLoan s e v i = Inr s'"
  shows "sender e = admin s \<and> approved (loans s i) \<and> \<not> disbursed (loans s i) \<and>
     v = amount (loans s i) \<and> payable_ok e (borrower (loans s i)) \<and>
     timestamp e + (if isDemoMode s then demoLoanDuration s else LOAN_DURATION) \<le> MAX_UINT \<and>
     totalBorrowed (members s (borrower (loans s i))) + amount (loans s i) \<le> MAX_UINT \<and>
     s' = s\<lparr>loans := (loans s)(i :=
               (loans s i)\<lparr>disbursed := True, disbursementTime := timestamp e,
                  dueDate := timestamp e +
                    (if isDemoMode s then demoLoanDuration s else LOAN_DURATION)\<rparr>),
            members := (members s)(borrower (loans s i) :=
               (members s (borrower (loans s i)))\<lparr>totalBorrowed :=
                  totalBorrowed (members s (borrower (loans s i))) + amount (loans s i)\<rparr>),
            balance := balance s\<rparr>"
  using assms
  by (auto simp: disburseLoan_def Let_def bind_simps)

lemma updateScoresOnRepayment_InrD:
  assumes "updateScoresOnRepayment s b creditBonus = Inr s'"
  shows "s' = s\<lparr>members := (members s)(b :=
           (members s b)\<lparr>individualScore :=
              (if creditBonus > 0
               then (if individualScore (members s b) + creditBonus > MAX_SCORE
                     then MAX_SCORE
                     else individualScore (members s b) + creditBonus)
               else individualScore (members s b))\<rparr>)\<rparr>"
proof (cases "creditBonus > 0")
  case True
  then show ?thesis using assms
    by (auto simp: updateScoresOnRepayment_def bind_simps split: if_splits)
next
  case False
  then have "s' = s" using assms
    by (auto simp: updateScoresOnRepayment_def bind_simps split: if_splits)
  then show ?thesis using False by simp
qed

lemma repayLoan_InrD:
  assumes "repayLoan s e v i = Inr s'"
  shows "borrower (loans s i) = sender e \<and> disbursed (loans s i) \<and> \<not> repaid (loans s i) \<and>
     v = totalRepayment (loans s i) \<and>
     (\<exists>creditBonus.
        calculateCreditBonus (dueDate (loans s i)) (timestamp e) = Inr creditBonus \<and>
        s' = s\<lparr>loans := (loans s)(i :=
                  (loans s i)\<lparr>repaid := True, repaymentTime := timestamp e\<rparr>),
               members := (members s)(sender e :=
                  (members s (sender e))\<lparr>
                     totalRepaid := totalRepaid (members s (sender e)) + totalRepayment (loans s i),
                     loansCompleted := Suc (loansCompleted (members s (sender e))),
                     hasActiveLoan := False,
                     individualScore :=
                       (if creditBonus > 0
                        then (if individualScore (members s (sender e)) + creditBonus > MAX_SCORE
                              then MAX_SCORE
                              else individualScore (members s (sender e)) + creditBonus)
                        else individualScore (members s (sender e)))\<rparr>),
               balance := balance s + v\<rparr>)"
proof -
  let ?s1 = "s\<lparr>loans := (loans s)(i :=
                  (loans s i)\<lparr>repaid := True, repaymentTime := timestamp e\<rparr>),
               members := (members s)(sender e :=
                  (members s (sender e))\<lparr>
                     totalRepaid := totalRepaid (members s (sender e)) + totalRepayment (loans s i),
                     loansCompleted := loansCompleted (members s (sender e)) + 1,
                     hasActiveLoan := False\<rparr>),
               balance := balance s + v\<rparr>"
  from assms obtain creditBonus where
    g: "borrower (loans s i) = sender e" "disbursed (loans s i)" "\<not> repaid (loans s i)"
       "v = totalRepayment (loans s i)" and
    b: "calculateCreditBonus (dueDate (loans s i)) (timestamp e) = Inr creditBonus" and
    u: "updateScoresOnRepayment ?s1 (sender e) creditBonus = Inr s'"
    unfolding repayLoan_def Let_def bind_simps by blast
  from updateScoresOnRepayment_InrD [OF u] have "s' = s\<lparr>loans := (loans s)(i :=
                  (loans s i)\<lparr>repaid := True, repaymentTime := timestamp e\<rparr>),
               members := (members s)(sender e :=
                  (members s (sender e))\<lparr>
                     totalRepaid := totalRepaid (members s (sender e)) + totalRepayment (loans s i),
                     loansCompleted := Suc (loansCompleted (members s (sender e))),
                     hasActiveLoan := False,
                     individualScore :=
                       (if creditBonus > 0
                        then (if individualScore (members s (sender e)) + creditBonus > MAX_SCORE
                              then MAX_SCORE
                              else individualScore (members s (sender e)) + creditBonus)
                        else individualScore (members s (sender e)))\<rparr>),
               balance := balance s + v\<rparr>"
    by simp
  with g b show ?thesis by blast
qed

lemma penalizeDefault_InrD:
  assumes "penalizeDefault s e i = Inr s'"
  shows "sender e = admin s \<and> disbursed (loans s i) \<and> \<not> repaid (loans s i) \<and>
     dueDate (loans s i) + 14 * days < timestamp e \<and>
     s' = s\<lparr>members :=
            (if 0 < circleId (members s (borrower (loans s i)))
             then penalizeMembers
                    (c_members (circles s (circleId (members s (borrower (loans s i))))))
                    (borrower (loans s i))
             else (\<lambda>m. m))
              ((members s)(borrower (loans s i) :=
                 (members s (borrower (loans s i)))\<lparr>individualScore :=
                    (if individualScore (members s (borrower (loans s i))) \<ge> DEFAULT_PENALTY
                     then individualScore (members s (borrower (loans s i))) - DEFAULT_PENALTY
                     else 0),
                  isActive := False\<rparr>))\<rparr>"
  using assms
  by (auto simp: penalizeDefault_def penalizeCircle_def Let_def bind_simps split: if_splits)


lemma admin_ops_InrD:
  "setDemoMode s e b = Inr s' \<Longrightarrow> s' = s\<lparr>isDemoMode := b\<rparr>"
  "setDemoLoanDuration s e d = Inr s' \<Longrightarrow> s' = s\<lparr>demoLoanDuration := d\<rparr>"
  "depositLiquidity s e v = Inr s' \<Longrightarrow> s' = s\<lparr>balance := balance s + v\<rparr>"
  "withdraw s e amt = Inr s' \<Longrightarrow> s' = s\<lparr>balance := balance s - amt\<rparr>"
  "unfreezeAccount s e u = Inr s' \<Longrightarrow>
     s' = s\<lparr>members := (members s)(u := (members s u)\<lparr>isActive := True\<rparr>)\<rparr>"
  "transferAdmin s e a = Inr s' \<Longrightarrow> s' = s\<lparr>admin := a\<rparr>"
  "receive s e v = Inr s' \<Longrightarrow> s' = s\<lparr>balance := balance s + v\<rparr>"
  by (auto simp: setDemoMode_def setDemoLoanDuration_def depositLiquidity_def withdraw_def
      unfreezeAccount_def transferAdmin_def receive_def bind_simps)
subsection \<open>Each call preserves the invariants\<close>

lemma inv_score_step:
  assumes "inv_score s" "step s e c = Inr s'"
  shows "inv_score s'"
proof (cases c)
  case (CreateCircle v name)
  with assms(2) have "createCircle s e v name = Inr s'" by simp
  from createCircle_InrD [OF this] show ?thesis
    using assms(1) by (auto simp: inv_score_def const_defs)
next
  case (JoinCircle v cid)
  with assms(2) have "joinCircle s e v cid = Inr s'" by simp
  from joinCircle_InrD [OF this] show ?thesis
    using assms(1) by (auto simp: inv_score_def const_defs)
next
  case (RequestLoan amt p)
  with assms(2) have "requestLoan s e amt p = Inr s'" by simp
  from requestLoan_InrD [OF this] show ?thesis
    using assms(1) by (auto simp: inv_score_def)
next
  case (ApproveLoan i)
  with assms(2) have "approveLoan s e i = Inr s'" by simp
  from approveLoan_InrD [OF this] show ?thesis
    using assms(1) by (auto simp: inv_score_def)
next
  case (DisburseLoan v i)
  with assms(2) have "disburseLoan s e v i = Inr s'" by simp
  from disburseLoan_InrD [OF this] show ?thesis
    using assms(1) by (auto simp: inv_score_def)
next
  case (RepayLoan v i)
  with assms(2) have "repayLoan s e v i = Inr s'" by simp
  from repayLoan_InrD [OF this] show ?thesis
    using assms(1) by (auto simp: inv_score_def)
next
  case (PenalizeDefault i)
  with assms(2) have "penalizeDefault s e i = Inr s'" by simp
  from penalizeDefault_InrD [OF this] show ?thesis
    using assms(1)
    by (auto simp: inv_score_def intro!: penalizeMembers_bound nat_diff_bound)
qed (use assms in \<open>auto simp: inv_score_def dest!: admin_ops_InrD\<close>)

lemma inv_approved_step:
  assumes "inv_approved s" "step s e c = Inr s'"
  shows "inv_approved s'"
proof (cases c)
  case (CreateCircle v name)
  with assms(2) have "createCircle s e v name = Inr s'" by simp
  from createCircle_InrD [OF this] show ?thesis
    using assms(1) by (auto simp: inv_approved_def)
next
  case (JoinCircle v cid)
  with assms(2) have "joinCircle s e v cid = Inr s'" by simp
  from joinCircle_InrD [OF this] show ?thesis
    using assms(1) by (auto simp: inv_approved_def)
next
  case (RequestLoan amt p)
  with assms(2) have "requestLoan s e amt p = Inr s'" by simp
  from requestLoan_InrD [OF this] show ?thesis
    using assms(1) by (auto simp: inv_approved_def)
next
  case (ApproveLoan i)
  with assms(2) have "approveLoan s e i = Inr s'" by simp
  from approveLoan_InrD [OF this] show ?thesis
    using assms(1) by (auto simp: inv_approved_def)
next
  case (DisburseLoan v i)
  with assms(2) have "disburseLoan s e v i = Inr s'" by simp
  from disburseLoan_InrD [OF this] show ?thesis
    using assms(1) by (auto simp: inv_approved_def)
next
  case (RepayLoan v i)
  with assms(2) have "repayLoan s e v i = Inr s'" by simp
  from repayLoan_InrD [OF this] show ?thesis
    using assms(1) by (auto simp: inv_approved_def)
next
  case (PenalizeDefault i)
  with assms(2) have "penalizeDefault s e i = Inr s'" by simp
  from penalizeDefault_InrD [OF this] show ?thesis
    using assms(1) by (auto simp: inv_approved_def)
qed (use assms in \<open>auto simp: inv_approved_def dest!: admin_ops_InrD\<close>)

lemma inv_circles_step:
  assumes "inv_circles s" "step s e c = Inr s'"
  shows "inv_circles s'"
proof (cases c)
  case (CreateCircle v name)
  with assms(2) have "createCircle s e v name = Inr s'" by simp
  from createCircle_InrD [OF this] show ?thesis
    using assms(1) unfolding inv_circles_def by (auto split: if_splits)
next
  case (JoinCircle v cid)
  with assms(2) have "joinCircle s e v cid = Inr s'" by simp
  from joinCircle_InrD [OF this] show ?thesis
    using assms(1) unfolding inv_circles_def by (auto split: if_splits)
next
  case (RequestLoan amt p)
  with assms(2) have "requestLoan s e amt p = Inr s'" by simp
  from requestLoan_InrD [OF this] show ?thesis
    using assms(1) by (auto simp: inv_circles_def)
next
  case (ApproveLoan i)
  with assms(2) have "approveLoan s e i = Inr s'" by simp
  from approveLoan_InrD [OF this] show ?thesis
    using assms(1) by (auto simp: inv_circles_def)
next
  case (DisburseLoan v i)
  with assms(2) have "disburseLoan s e v i = Inr s'" by simp
  from disburseLoan_InrD [OF this] show ?thesis
    using assms(1) by (auto simp: inv_circles_def)
next
  case (RepayLoan v i)
  with assms(2) have "repayLoan s e v i = Inr s'" by simp
  from repayLoan_InrD [OF this] show ?thesis
    using assms(1) by (auto simp: inv_circles_def)
next
  case (PenalizeDefault i)
  with assms(2) have "penalizeDefault s e i = Inr s'" by simp
  from penalizeDefault_InrD [OF this] show ?thesis
    using assms(1) by (auto simp: inv_circles_def)
qed (use assms in \<open>auto simp: inv_circles_def dest!: admin_ops_InrD\<close>)


lemma inv_loans_absent:
  "inv_loans s \<Longrightarrow> \<not> loanExists s i \<Longrightarrow>
     \<not> disbursed (loans s i) \<and> \<not> approved (loans s i) \<and> borrower (loans s i) = 0"
  unfolding inv_loans_def by blast

lemma inv_loans_flag:
  "inv_loans s \<Longrightarrow> loanExists s i \<Longrightarrow> \<not> repaid (loans s i) \<Longrightarrow>
     hasActiveLoan (members s (borrower (loans s i))) \<and>
     0 < circleId (members s (borrower (loans s i)))"
  unfolding inv_loans_def by blast

lemma inv_loans_unique:
  "inv_loans s \<Longrightarrow> loanExists s i \<Longrightarrow> loanExists s j \<Longrightarrow> \<not> repaid (loans s i) \<Longrightarrow>
     \<not> repaid (loans s j) \<Longrightarrow> borrower (loans s i) = borrower (loans s j) \<Longrightarrow> i = j"
  unfolding inv_loans_def by blast

lemma inv_loansI:
  assumes "\<And>i. \<not> loanExists s i \<Longrightarrow>
          \<not> disbursed (loans s i) \<and> \<not> approved (loans s i) \<and> borrower (loans s i) = 0"
    "\<And>i. loanExists s i \<Longrightarrow> \<not> repaid (loans s i) \<Longrightarrow>
          hasActiveLoan (members s (borrower (loans s i))) \<and>
          0 < circleId (members s (borrower (loans s i)))"
    "\<And>i j. loanExists s i \<Longrightarrow> loanExists s j \<Longrightarrow> \<not> repaid (loans s i) \<Longrightarrow>
       \<not> repaid (loans s j) \<Longrightarrow> borrower (loans s i) = borrower (loans s j) \<Longrightarrow> i = j"
  shows "inv_loans s"
  unfolding inv_loans_def using assms by blast

lemma inv_loans_frame:
  assumes "inv_loans s" "loanCount s' = loanCount s"
    "\<And>i. borrower (loans s' i) = borrower (loans s i)"
    "\<And>i. repaid (loans s' i) = repaid (loans s i)"
    "\<And>i. \<not> loanExists s i \<Longrightarrow> disbursed (loans s' i) = disbursed (loans s i) \<and>
          approved (loans s' i) = approved (loans s i)"
    "\<And>a. hasActiveLoan (members s a) \<Longrightarrow> 0 < circleId (members s a) \<Longrightarrow>
         hasActiveLoan (members s' a) \<and> 0 < circleId (members s' a)"
  shows "inv_loans s'"
proof (rule inv_loansI)
  have ex: "\<And>j. loanExists s' j = loanExists s j" unfolding loanExists_def assms(2) by simp
  show "\<not> disbursed (loans s' i) \<and> \<not> approved (loans s' i) \<and> borrower (loans s' i) = 0"
    if "\<not> loanExists s' i" for i
    using that inv_loans_absent [OF assms(1), of i] assms(3,5) ex by simp
  show "hasActiveLoan (members s' (borrower (loans s' i))) \<and>
          0 < circleId (members s' (borrower (loans s' i)))"
    if "loanExists s' i" "\<not> repaid (loans s' i)" for i
    using that inv_loans_flag [OF assms(1), of i] assms(3,4,6) ex by simp
  show "i = j"
    if "loanExists s' i" "loanExists s' j" "\<not> repaid (loans s' i)" "\<not> repaid (loans s' j)"
      "borrower (loans s' i) = borrower (loans s' j)" for i j
    using that inv_loans_unique [OF assms(1), of i j] assms(3,4) ex by simp
qed

lemma inv_loans_request:
  assumes "inv_loans s" "requestLoan s e amt p = Inr s'"
  shows "inv_loans s'"
  unfolding inv_loans_def
proof -
  note d = requestLoan_InrD [OF assms(2)]
  from d have na: "\<not> hasActiveLoan (members s (sender e))"
    and pos: "0 < circleId (members s (sender e))" by simp_all
  from d have lc: "loanCount s' = Suc (loanCount s)" by auto
  from d have new: "borrower (loans s' (Suc (loanCount s))) = sender e"
      "\<not> repaid (loans s' (Suc (loanCount s)))" "\<not> disbursed (loans s' (Suc (loanCount s)))"
      "\<not> approved (loans s' (Suc (loanCount s)))" by auto
  from d have old: "\<And>i. i \<noteq> Suc (loanCount s) \<Longrightarrow> loans s' i = loans s i" by auto
  from d have ms: "hasActiveLoan (members s' (sender e))" "circleId (members s' (sender e)) = circleId (members s (sender e))"
      "\<And>a. a \<noteq> sender e \<Longrightarrow> members s' a = members s a" by auto
  have none: "\<And>i. loanExists s i \<Longrightarrow> \<not> repaid (loans s i) \<Longrightarrow> borrower (loans s i) \<noteq> sender e"
    using inv_loans_flag [OF assms(1)] na by metis
  have ex: "\<And>i. loanExists s' i = (loanExists s i \<or> i = Suc (loanCount s))"
    unfolding loanExists_def lc by auto
  have nex: "\<not> loanExists s (Suc (loanCount s))" by (simp add: loanExists_def)
  have c1: "\<forall>i. \<not> loanExists s' i \<longrightarrow>
          \<not> disbursed (loans s' i) \<and> \<not> approved (loans s' i) \<and> borrower (loans s' i) = 0"
    using inv_loans_absent [OF assms(1)] ex old by metis
  have c2: "\<forall>i. loanExists s' i \<and> \<not> repaid (loans s' i) \<longrightarrow>
          hasActiveLoan (members s' (borrower (loans s' i))) \<and>
          0 < circleId (members s' (borrower (loans s' i)))"
  proof (intro allI impI)
    fix i assume a: "loanExists s' i \<and> \<not> repaid (loans s' i)"
    show "hasActiveLoan (members s' (borrower (loans s' i))) \<and>
          0 < circleId (members s' (borrower (loans s' i)))"
    proof (cases "i = Suc (loanCount s)")
      case True
      then show ?thesis using new ms pos by simp
    next
      case False
      then have e: "loanExists s i" "\<not> repaid (loans s i)" "loans s' i = loans s i"
        using a ex old by auto
      then have "borrower (loans s i) \<noteq> sender e" using none by blast
      then show ?thesis using inv_loans_flag [OF assms(1) e(1,2)] e ms(3) by simp
    qed
  qed
  have c3: "\<forall>i j. loanExists s' i \<and> loanExists s' j \<and> \<not> repaid (loans s' i) \<and> \<not> repaid (loans s' j) \<and>
          borrower (loans s' i) = borrower (loans s' j) \<longrightarrow> i = j"
  proof (intro allI impI)
    fix i j
    assume a: "loanExists s' i \<and> loanExists s' j \<and> \<not> repaid (loans s' i) \<and> \<not> repaid (loans s' j) \<and>
          borrower (loans s' i) = borrower (loans s' j)"
    show "i = j"
    proof (cases "i = Suc (loanCount s)")
      case True
      show ?thesis
      proof (rule ccontr)
        assume "i \<noteq> j"
        then have "j \<noteq> Suc (loanCount s)" using True by simp
        then have "loanExists s j" "\<not> repaid (loans s j)" "borrower (loans s j) = sender e"
          using a ex old new True by auto
        then show False using none by blast
      qed
    next
      case False
      then have ei: "loanExists s i" "\<not> repaid (loans s i)" "loans s' i = loans s i"
        using a ex old by auto
      show ?thesis
      proof (cases "j = Suc (loanCount s)")
        case True
        then have "borrower (loans s i) = sender e" using a ei new by auto
        then show ?thesis using none ei by blast
      next
        case False
        then have "loanExists s j" "\<not> repaid (loans s j)" "loans s' j = loans s j"
          using a ex old by auto
        then show ?thesis using inv_loans_unique [OF assms(1), of i j] ei a by simp
      qed
    qed
  qed
  show "(\<forall>i. \<not> loanExists s' i \<longrightarrow>
          \<not> disbursed (loans s' i) \<and> \<not> approved (loans s' i) \<and> borrower (loans s' i) = 0) \<and>
      (\<forall>i. loanExists s' i \<and> \<not> repaid (loans s' i) \<longrightarrow>
          hasActiveLoan (members s' (borrower (loans s' i))) \<and>
          0 < circleId (members s' (borrower (loans s' i)))) \<and>
      (\<forall>i j. loanExists s' i \<and> loanExists s' j \<and> \<not> repaid (loans s' i) \<and> \<not> repaid (loans s' j) \<and>
          borrower (loans s' i) = borrower (loans s' j) \<longrightarrow> i = j)"
    using c1 c2 c3 by (intro conjI)
qed

lemma inv_loans_repay:
  assumes "inv_loans s" "repayLoan s e v i = Inr s'"
  shows "inv_loans s'"
  unfolding inv_loans_def
proof -
  note d = repayLoan_InrD [OF assms(2)]
  from d have g: "borrower (loans s i) = sender e" "disbursed (loans s i)" "\<not> repaid (loans s i)"
    by simp_all
  have exi: "loanExists s i" using inv_loans_absent [OF assms(1), of i] g(2) by auto
  from d have lc: "loanCount s' = loanCount s" by auto
  from d have li: "repaid (loans s' i)" "borrower (loans s' i) = borrower (loans s i)"
     "disbursed (loans s' i) = disbursed (loans s i)" "approved (loans s' i) = approved (loans s i)"
    by auto
  from d have old: "\<And>j. j \<noteq> i \<Longrightarrow> loans s' j = loans s j" by auto
  from d have ms: "\<And>a. a \<noteq> sender e \<Longrightarrow> members s' a = members s a" by auto
  have ex: "\<And>j. loanExists s' j = loanExists s j" unfolding loanExists_def lc by simp
  have uniq: "\<And>j. loanExists s j \<Longrightarrow> \<not> repaid (loans s j) \<Longrightarrow> borrower (loans s j) = sender e \<Longrightarrow> j = i"
    using inv_loans_unique [OF assms(1) _ exi _ g(3)] g(1) by metis
  have c1: "\<forall>j. \<not> loanExists s' j \<longrightarrow>
          \<not> disbursed (loans s' j) \<and> \<not> approved (loans s' j) \<and> borrower (loans s' j) = 0"
    using inv_loans_absent [OF assms(1)] ex old li(2,3,4) by metis
  have c2: "\<forall>j. loanExists s' j \<and> \<not> repaid (loans s' j) \<longrightarrow>
          hasActiveLoan (members s' (borrower (loans s' j))) \<and>
          0 < circleId (members s' (borrower (loans s' j)))"
  proof (intro allI impI)
    fix j assume a: "loanExists s' j \<and> \<not> repaid (loans s' j)"
    then have ji: "j \<noteq> i" using li(1) by auto
    then have e: "loanExists s j" "\<not> repaid (loans s j)" "loans s' j = loans s j"
      using a ex old by auto
    then have "borrower (loans s j) \<noteq> sender e" using uniq ji by blast
    then show "hasActiveLoan (members s' (borrower (loans s' j))) \<and>
          0 < circleId (members s' (borrower (loans s' j)))"
      using inv_loans_flag [OF assms(1) e(1,2)] e ms by simp
  qed
  have c3: "\<forall>j k. loanExists s' j \<and> loanExists s' k \<and> \<not> repaid (loans s' j) \<and> \<not> repaid (loans s' k) \<and>
          borrower (loans s' j) = borrower (loans s' k) \<longrightarrow> j = k"
  proof (intro allI impI)
    fix j k
    assume a: "loanExists s' j \<and> loanExists s' k \<and> \<not> repaid (loans s' j) \<and> \<not> repaid (loans s' k) \<and>
          borrower (loans s' j) = borrower (loans s' k)"
    then have "j \<noteq> i" "k \<noteq> i" using li(1) by auto
    then have "loans s' j = loans s j" "loans s' k = loans s k" using old by auto
    then show "j = k" using inv_loans_unique [OF assms(1), of j k] a ex by simp
  qed
  show "(\<forall>i. \<not> loanExists s' i \<longrightarrow>
          \<not> disbursed (loans s' i) \<and> \<not> approved (loans s' i) \<and> borrower (loans s' i) = 0) \<and>
      (\<forall>i. loanExists s' i \<and> \<not> repaid (loans s' i) \<longrightarrow>
          hasActiveLoan (members s' (borrower (loans s' i))) \<and>
          0 < circleId (members s' (borrower (loans s' i)))) \<and>
      (\<forall>i j. loanExists s' i \<and> loanExists s' j \<and> \<not> repaid (loans s' i) \<and> \<not> repaid (loans s' j) \<and>
          borrower (loans s' i) = borrower (loans s' j) \<longrightarrow> i = j)"
    using c1 c2 c3 by (intro conjI)
qed

lemma inv_loans_step:
  assumes "inv_loans s" "step s e c = Inr s'"
  shows "inv_loans s'"
proof (cases c)
  case (CreateCircle v name)
  with assms(2) have "createCircle s e v name = Inr s'" by simp
  from createCircle_InrD [OF this] show ?thesis
    by (intro inv_loans_frame [OF assms(1)]) auto
next
  case (JoinCircle v cid)
  with assms(2) have "joinCircle s e v cid = Inr s'" by simp
  from joinCircle_InrD [OF this] show ?thesis
    by (intro inv_loans_frame [OF assms(1)]) auto
next
  case (RequestLoan amt p)
  with assms show ?thesis using inv_loans_request by simp
next
  case (ApproveLoan i)
  with assms(2) have "approveLoan s e i = Inr s'" by simp
  note d = approveLoan_InrD [OF this]
  then have "borrower (loans s i) \<noteq> 0" by simp
  then have "loanExists s i" using inv_loans_absent [OF assms(1), of i] by auto
  with d show ?thesis
    by (intro inv_loans_frame [OF assms(1)]) auto
next
  case (DisburseLoan v i)
  with assms(2) have "disburseLoan s e v i = Inr s'" by simp
  note d = disburseLoan_InrD [OF this]
  then have "approved (loans s i)" by simp
  then have "loanExists s i" using inv_loans_absent [OF assms(1), of i] by auto
  with d show ?thesis
    by (intro inv_loans_frame [OF assms(1)]) auto
next
  case (RepayLoan v i)
  with assms show ?thesis using inv_loans_repay by simp
next
  case (PenalizeDefault i)
  with assms(2) have "penalizeDefault s e i = Inr s'" by simp
  from penalizeDefault_InrD [OF this] show ?thesis
    by (intro inv_loans_frame [OF assms(1)]) auto
qed (use assms in \<open>auto dest!: admin_ops_InrD intro!: inv_loans_frame [OF assms(1)]\<close>)

lemma inv_constructor: "inv (constructor d)"
  by (simp add: inv_def inv_score_def inv_approved_def inv_circles_def inv_loans_def
      constructor_def zero_member_def zero_loan_def zero_circle_def loanExists_def)

lemma inv_step: "inv s \<Longrightarrow> step s e c = Inr s' \<Longrightarrow> inv s'"
  unfolding inv_def
  using inv_score_step inv_approved_step inv_circles_step inv_loans_step by blast

lemma reachable_inv: "reachable s \<Longrightarrow> inv s"
  by (induction rule: reachable.induct) (auto intro: inv_constructor inv_step)

lemma reachable_exec: "reachable s \<Longrightarrow> reachable (exec s tx)"
  by (auto simp: exec_def split: sum.splits intro: reachable_step)

lemma reachable_foldl: "reachable s \<Longrightarrow> reachable (foldl exec s txs)"
  by (induction txs arbitrary: s) (auto intro: reachable_exec)

lemma reachable_run: "reachable s \<Longrightarrow> reachable (run s txs)"
  by (simp add: run_def reachable_foldl)

subsection \<open>Lemmas for the claims\<close>

lemma calculateCreditBonus_InrD:
  assumes "calculateCreditBonus due t = Inr b"
  shows "b = (if t < due then 15 else if t \<le> due + 3 * days then 10
              else if t \<le> due + 7 * days then 5 else 0)"
  using assms
  by (auto simp: calculateCreditBonus_def bind_simps EARLY_BONUS_def ON_TIME_BONUS_def
      LATE_PENALTY_def split: if_splits)

lemma step_keeps_loan_terms:
  assumes "loanExists s i" "step s e c = Inr s'"
  shows "loanExists s' i \<and> amount (loans s' i) = amount (loans s i) \<and>
     interestAmount (loans s' i) = interestAmount (loans s i) \<and>
     totalRepayment (loans s' i) = totalRepayment (loans s i)"
proof (cases c)
  case (CreateCircle v name)
  with assms(2) have "createCircle s e v name = Inr s'" by simp
  from createCircle_InrD [OF this] show ?thesis
    using assms(1) by (auto simp: loanExists_def)
next
  case (JoinCircle v cid)
  with assms(2) have "joinCircle s e v cid = Inr s'" by simp
  from joinCircle_InrD [OF this] show ?thesis
    using assms(1) by (auto simp: loanExists_def)
next
  case (RequestLoan amt p)
  with assms(2) have "requestLoan s e amt p = Inr s'" by simp
  from requestLoan_InrD [OF this] show ?thesis
    using assms(1) by (auto simp: loanExists_def)
next
  case (ApproveLoan j)
  with assms(2) have "approveLoan s e j = Inr s'" by simp
  from approveLoan_InrD [OF this] show ?thesis
    using assms(1) by (auto simp: loanExists_def)
next
  case (DisburseLoan v j)
  with assms(2) have "disburseLoan s e v j = Inr s'" by simp
  from disburseLoan_InrD [OF this] show ?thesis
    using assms(1) by (auto simp: loanExists_def)
next
  case (RepayLoan v j)
  with assms(2) have "repayLoan s e v j = Inr s'" by simp
  from repayLoan_InrD [OF this] show ?thesis
    using assms(1) by (auto simp: loanExists_def)
next
  case (PenalizeDefault j)
  with assms(2) have "penalizeDefault s e j = Inr s'" by simp
  from penalizeDefault_InrD [OF this] show ?thesis
    using assms(1) by (auto simp: loanExists_def)
qed (use assms in \<open>auto simp: loanExists_def dest!: admin_ops_InrD\<close>)

lemma exec_keeps_loan_terms:
  assumes "loanExists s i"
  shows "loanExists (exec s tx) i \<and> amount (loans (exec s tx) i) = amount (loans s i) \<and>
     interestAmount (loans (exec s tx) i) = interestAmount (loans s i) \<and>
     totalRepayment (loans (exec s tx) i) = totalRepayment (loans s i)"
proof (cases "step s (fst tx) (snd tx)")
  case (Inl err)
  then show ?thesis using assms by (simp add: exec_def)
next
  case (Inr s')
  then have "exec s tx = s'" by (simp add: exec_def)
  then show ?thesis using step_keeps_loan_terms [OF assms Inr] by simp
qed

lemma run_keeps_loan_terms:
  "loanExists s i \<Longrightarrow>
   loanExists (run s txs) i \<and> amount (loans (run s txs) i) = amount (loans s i) \<and>
     interestAmount (loans (run s txs) i) = interestAmount (loans s i) \<and>
     totalRepayment (loans (run s txs) i) = totalRepayment (loans s i)"
proof (induction txs arbitrary: s)
  case Nil
  then show ?case by (simp add: run_def)
next
  case (Cons tx txs)
  have r: "run s (tx # txs) = run (exec s tx) txs" by (simp add: run_def)
  from exec_keeps_loan_terms [OF Cons.prems, of tx] Cons.IH [of "exec s tx"]
  show ?case unfolding r by simp
qed

lemma inv_circles_active:
  "inv_circles s \<Longrightarrow> c_isActive (circles s c) = (3 \<le> length (c_members (circles s c)))"
  unfolding inv_circles_def by blast

lemma inv_circles_absent:
  "inv_circles s \<Longrightarrow> \<not> (1 \<le> c \<and> c \<le> circleCount s) \<Longrightarrow> c_members (circles s c) = []"
  unfolding inv_circles_def by blast

lemma activation_step:
  assumes "inv_circles s" "step s e c = Inr s'"
  shows "(\<not> c_isActive (circles s cid) \<and> c_isActive (circles s' cid)) =
         ((\<exists>v. c = JoinCircle v cid) \<and> length (c_members (circles s cid)) = 2 \<and>
          length (c_members (circles s' cid)) = 3)"
proof (cases c)
  case (CreateCircle v name)
  with assms(2) have "createCircle s e v name = Inr s'" by simp
  from createCircle_InrD [OF this] show ?thesis
    using CreateCircle by auto
next
  case (JoinCircle v cid')
  with assms(2) have "joinCircle s e v cid' = Inr s'" by simp
  from joinCircle_InrD [OF this] inv_circles_active [OF assms(1), of cid] show ?thesis
    using JoinCircle by auto
next
  case (RequestLoan amt p)
  with assms(2) have "requestLoan s e amt p = Inr s'" by simp
  from requestLoan_InrD [OF this] show ?thesis
    using RequestLoan by auto
next
  case (ApproveLoan j)
  with assms(2) have "approveLoan s e j = Inr s'" by simp
  from approveLoan_InrD [OF this] show ?thesis
    using ApproveLoan by auto
next
  case (DisburseLoan v j)
  with assms(2) have "disburseLoan s e v j = Inr s'" by simp
  from disburseLoan_InrD [OF this] show ?thesis
    using DisburseLoan by auto
next
  case (RepayLoan v j)
  with assms(2) have "repayLoan s e v j = Inr s'" by simp
  from repayLoan_InrD [OF this] show ?thesis
    using RepayLoan by auto
next
  case (PenalizeDefault j)
  with assms(2) have "penalizeDefault s e j = Inr s'" by simp
  from penalizeDefault_InrD [OF this] show ?thesis
    using PenalizeDefault by auto
qed (use assms in \<open>auto dest!: admin_ops_InrD\<close>)

lemma active_step_mono:
  assumes "inv_circles s" "step s e c = Inr s'" "c_isActive (circles s cid)"
  shows "c_isActive (circles s' cid)"
proof (cases c)
  case (CreateCircle v name)
  with assms(2) have "createCircle s e v name = Inr s'" by simp
  note d = createCircle_InrD [OF this]
  have "cid \<noteq> Suc (circleCount s)"
    using inv_circles_active [OF assms(1), of cid] inv_circles_absent [OF assms(1), of cid]
      assms(3) by auto
  with d assms(3) show ?thesis by auto
next
  case (JoinCircle v cid')
  with assms(2) have "joinCircle s e v cid' = Inr s'" by simp
  from joinCircle_InrD [OF this] assms(3) show ?thesis by auto
next
  case (RequestLoan amt p)
  with assms(2) have "requestLoan s e amt p = Inr s'" by simp
  from requestLoan_InrD [OF this] assms(3) show ?thesis by auto
next
  case (ApproveLoan j)
  with assms(2) have "approveLoan s e j = Inr s'" by simp
  from approveLoan_InrD [OF this] assms(3) show ?thesis by auto
next
  case (DisburseLoan v j)
  with assms(2) have "disburseLoan s e v j = Inr s'" by simp
  from disburseLoan_InrD [OF this] assms(3) show ?thesis by auto
next
  case (RepayLoan v j)
  with assms(2) have "repayLoan s e v j = Inr s'" by simp
  from repayLoan_InrD [OF this] assms(3) show ?thesis by auto
next
  case (PenalizeDefault j)
  with assms(2) have "penalizeDefault s e j = Inr s'" by simp
  from penalizeDefault_InrD [OF this] assms(3) show ?thesis by auto
qed (use assms in \<open>auto dest!: admin_ops_InrD\<close>)

lemma active_run_mono:
  "reachable s \<Longrightarrow> c_isActive (circles s cid) \<Longrightarrow> c_isActive (circles (run s txs) cid)"
proof (induction txs arbitrary: s)
  case Nil
  then show ?case by (simp add: run_def)
next
  case (Cons tx txs)
  have r: "run s (tx # txs) = run (exec s tx) txs" by (simp add: run_def)
  have ic: "inv_circles s" using reachable_inv [OF Cons.prems(1)] by (simp add: inv_def)
  have "c_isActive (circles (exec s tx) cid)"
  proof (cases "step s (fst tx) (snd tx)")
    case (Inl err)
    then show ?thesis using Cons.prems(2) by (simp add: exec_def)
  next
    case (Inr s')
    then show ?thesis using active_step_mono [OF ic Inr Cons.prems(2)] by (simp add: exec_def)
  qed
  from Cons.IH [OF reachable_exec [OF Cons.prems(1)] this] show ?case unfolding r .
qed

lemma reachable_approved_disbursed:
  "reachable s \<Longrightarrow> approved (loans s i) \<Longrightarrow> disbursed (loans s i)"
  using reachable_inv [of s] by (simp add: inv_def inv_approved_def)

lemma sumScores_ok:
  "\<forall>a. individualScore (m a) \<le> 100 \<Longrightarrow> t + 100 * length as \<le> MAX_UINT \<Longrightarrow>
   \<exists>r. sumScores m as t = Inr r \<and> r \<le> t + 100 * length as"
proof (induction as arbitrary: t)
  case Nil
  then show ?case by simp
next
  case (Cons a as)
  define sc where
    "sc = (if individualScore (m a) > 0 then individualScore (m a) else STARTING_SCORE)"
  have sc: "sc \<le> 100" using Cons.prems(1) by (simp add: sc_def STARTING_SCORE_def)
  have fit: "t + sc \<le> MAX_UINT" using Cons.prems(2) sc by simp
  have "(t + sc) + 100 * length as \<le> MAX_UINT" using Cons.prems(2) sc by simp
  from Cons.IH [OF Cons.prems(1) this] obtain r where
    r: "sumScores m as (t + sc) = Inr r" "r \<le> (t + sc) + 100 * length as" by blast
  have "sumScores m (a # as) t = Inr r"
    using fit r(1) by (simp add: checked_add_def sc_def Let_def)
  moreover have "r \<le> t + 100 * length (a # as)" using r(2) sc by simp
  ultimately show ?case by blast
qed

lemma getCircleAverageScore_ok:
  assumes "inv_score s" "length (c_members (circles s c)) \<le> 10"
  shows "\<exists>r. getCircleAverageScore s c = Inr r \<and> r \<le> 100"
proof (cases "c_members (circles s c) = []")
  case True
  then show ?thesis by (simp add: getCircleAverageScore_def STARTING_SCORE_def)
next
  case False
  let ?ms = "c_members (circles s c)"
  have sc: "\<forall>a. individualScore (members s a) \<le> 100"
    using assms(1) by (simp add: inv_score_def MAX_SCORE_def)
  have "0 + 100 * length ?ms \<le> MAX_UINT" using assms(2) by (simp add: MAX_UINT_def)
  from sumScores_ok [OF sc this] obtain r where
    r: "sumScores (members s) ?ms 0 = Inr r" "r \<le> 100 * length ?ms" by auto
  have pos: "0 < length ?ms" using False by simp
  have "r div length ?ms \<le> 100"
    using r(2) pos by (metis div_le_mono nonzero_mult_div_cancel_right less_numeral_extra(3))
  then show ?thesis using r(1) False by (simp add: getCircleAverageScore_def Let_def)
qed

lemma inv_circles_length:
  "inv_circles s \<Longrightarrow> length (c_members (circles s c)) \<le> 10"
  unfolding inv_circles_def by blast

lemma inv_circles_distinct:
  "inv_circles s \<Longrightarrow> distinct (c_members (circles s c))"
  unfolding inv_circles_def by blast

lemma inv_circles_zero:
  "inv_circles s \<Longrightarrow> c_members (circles s 0) = []"
  unfolding inv_circles_def by auto

text \<open>
  When \<open>penalizeDefault\<close> goes through, and the member map it leaves: in a
  reachable state the average computed for the event cannot overflow.
\<close>

lemma penalizeDefault_succeeds:
  assumes "inv_score s" "inv_circles s" "sender e = admin s" "disbursed (loans s i)"
    "\<not> repaid (loans s i)" "dueDate (loans s i) + 14 * days < timestamp e"
    "timestamp e \<le> MAX_UINT"
  shows "\<exists>s'. penalizeDefault s e i = Inr s'"
proof -
  define b where "b = borrower (loans s i)"
  define m1 where "m1 = (members s)(b := (members s b)\<lparr>individualScore :=
                 (if individualScore (members s b) \<ge> DEFAULT_PENALTY
                  then individualScore (members s b) - DEFAULT_PENALTY else 0),
               isActive := False\<rparr>)"
  define cid where "cid = circleId (members s b)"
  define s2 where "s2 = s\<lparr>members := penalizeMembers (c_members (circles s cid)) b m1\<rparr>"
  have m1: "\<forall>a. individualScore (m1 a) \<le> MAX_SCORE"
    using assms(1) unfolding m1_def by (auto simp: inv_score_def intro: nat_diff_bound)
  have "inv_score s2"
    using penalizeMembers_bound [OF m1] by (simp add: inv_score_def s2_def)
  moreover have "length (c_members (circles s2 cid)) \<le> 10"
    using inv_circles_length [OF assms(2)] by (simp add: s2_def)
  ultimately obtain r where r: "getCircleAverageScore s2 cid = Inr r"
    using getCircleAverageScore_ok by blast
  have add: "checked_add (dueDate (loans s i)) (14 * days) = Inr (dueDate (loans s i) + 14 * days)"
    using assms(6,7) by (simp add: checked_add_def)
  have pc: "penalizeCircle (s\<lparr>members := m1\<rparr>) cid b = Inr s2"
    using r by (simp add: penalizeCircle_def Let_def s2_def)
  have "penalizeDefault s e i =
          (if circleId (m1 b) > 0 then penalizeCircle (s\<lparr>members := m1\<rparr>) (circleId (m1 b)) b
           else Inr (s\<lparr>members := m1\<rparr>))"
    using assms(3,4,5,6) add
    by (simp add: penalizeDefault_def Let_def m1_def b_def)
  moreover have "circleId (m1 b) = cid" by (simp add: m1_def cid_def)
  ultimately show ?thesis using pc by simp
qed

lemma penalizeDefault_effect:
  assumes "inv_circles s" "penalizeDefault s e i = Inr s'" "b = borrower (loans s i)"
  shows "members s' a =
     (if a = b
      then (members s b)\<lparr>individualScore :=
              (if individualScore (members s b) \<ge> 50
               then individualScore (members s b) - 50 else 0),
            isActive := False\<rparr>
      else if a \<in> set (c_members (circles s (circleId (members s b))))
      then (members s a)\<lparr>individualScore :=
              (if individualScore (members s a) \<ge> 20
               then individualScore (members s a) - 20 else 0)\<rparr>
      else members s a)"
proof -
  define ms where "ms = c_members (circles s (circleId (members s b)))"
  define m1 where "m1 = (members s)(b := (members s b)\<lparr>individualScore :=
                 (if individualScore (members s b) \<ge> DEFAULT_PENALTY
                  then individualScore (members s b) - DEFAULT_PENALTY else 0),
               isActive := False\<rparr>)"
  have dist: "distinct ms" unfolding ms_def by (rule inv_circles_distinct [OF assms(1)])
  have s': "members s' = (if 0 < circleId (members s b) then penalizeMembers ms b m1 else m1)"
    using penalizeDefault_InrD [OF assms(2)] unfolding ms_def m1_def assms(3) by auto
  have m1b: "m1 b = (members s b)\<lparr>individualScore :=
              (if individualScore (members s b) \<ge> 50
               then individualScore (members s b) - 50 else 0),
            isActive := False\<rparr>"
    by (simp add: m1_def DEFAULT_PENALTY_def)
  have m1a: "a \<noteq> b \<Longrightarrow> m1 a = members s a" by (simp add: m1_def)
  show ?thesis
  proof (cases "0 < circleId (members s b)")
    case True
    then have "members s' a = penalizeMembers ms b m1 a" using s' by simp
    also have "\<dots> = (if a \<in> set ms \<and> a \<noteq> b
      then (m1 a)\<lparr>individualScore :=
             (if individualScore (m1 a) \<ge> CIRCLE_DEFAULT_PENALTY
              then individualScore (m1 a) - CIRCLE_DEFAULT_PENALTY else 0)\<rparr>
      else m1 a)"
      by (rule penalizeMembers_apply [OF dist])
    finally show ?thesis using m1b m1a
      by (simp add: ms_def CIRCLE_DEFAULT_PENALTY_def)
  next
    case False
    then have "ms = []" using inv_circles_zero [OF assms(1)] by (simp add: ms_def)
    moreover have "members s' a = m1 a" using s' False by simp
    ultimately show ?thesis using m1b m1a by (simp add: ms_def)
  qed
qed

lemma penalizeDefault_frame:
  assumes "penalizeDefault s e i = Inr s'"
  shows "loans s' = loans s \<and> circles s' = circles s \<and> admin s' = admin s \<and>
     balance s' = balance s"
  using penalizeDefault_InrD [OF assms] by (auto split: if_splits)










section \<open>The concrete run\<close>

lemmas scenario_defs = s0_def s1_def s2_def s3_def s4_def s5_def s6_def s7_def s8_def
  s4_approved_def s4_disbursed_def joined_def savers_def seed_loan_def call_by_def

lemmas eval_simps = op_defs constructor_def zero_member_def zero_circle_def zero_loan_def
  const_defs checked_add_def checked_mul_def transfer_def Let_def getMaxLoanAmount_def getInterestRate_def
  getTrustScore_def getCircleAverageScore_def calculateCreditBonus_def updateScoresOnRepayment_def
  penalizeCircle_def fun_eq_iff

lemma step1: "createCircle s0 (call_by 11 1000) ether ''savers'' = Inr s1"
  by (simp add: scenario_defs eval_simps)

lemma step2: "joinCircle s1 (call_by 12 1001) ether 1 = Inr s2"
  by (simp add: scenario_defs eval_simps)

lemma step3: "joinCircle s2 (call_by 13 1002) ether 1 = Inr s3"
  by (simp add: scenario_defs eval_simps)

lemma step4: "requestLoan s3 (call_by 11 2000) ether ''seed'' = Inr s4"
  by (simp add: scenario_defs eval_simps)

lemma step5: "approveLoan s4 (call_by 100 3000) 1 = Inr s5"
  by (simp add: scenario_defs eval_simps)

lemma step6: "repayLoan s5 (call_by 11 607799) 1060000000000000000 1 = Inr s6"
  by (simp add: scenario_defs eval_simps)

lemma step7: "penalizeDefault s5 (call_by 100 1817401) 1 = Inr s7"
  by (simp add: scenario_defs eval_simps)

lemma step8: "penalizeDefault s7 (call_by 100 1817401) 1 = Inr s8"
  by (simp add: scenario_defs eval_simps)

lemma reachable_createCircle:
  "reachable s \<Longrightarrow> createCircle s e v name = Inr s' \<Longrightarrow> reachable s'"
  by (rule reachable_step [where c = "CreateCircle v name"]) simp_all

lemma reachable_joinCircle:
  "reachable s \<Longrightarrow> joinCircle s e v cid = Inr s' \<Longrightarrow> reachable s'"
  by (rule reachable_step [where c = "JoinCircle v cid"]) simp_all

lemma reachable_requestLoan:
  "reachable s \<Longrightarrow> requestLoan s e amt purp = Inr s' \<Longrightarrow> reachable s'"
  by (rule reachable_step [where c = "RequestLoan amt purp"]) simp_all

lemma reachable_approveLoan:
  "reachable s \<Longrightarrow> approveLoan s e i = Inr s' \<Longrightarrow> reachable s'"
  by (rule reachable_step [where c = "ApproveLoan i"]) simp_all

lemma reachable_repayLoan:
  "reachable s \<Longrightarrow> repayLoan s e v i = Inr s' \<Longrightarrow> reachable s'"
  by (rule reachable_step [where c = "RepayLoan v i"]) simp_all

lemma reachable_penalizeDefault:
  "reachable s \<Longrightarrow> penalizeDefault s e i = Inr s' \<Longrightarrow> reachable s'"
  by (rule reachable_step [where c = "PenalizeDefault i"]) simp_all

lemma reachable_s0: "reachable s0"
  by (simp add: s0_def reachable_init)

lemma reachable_s1: "reachable s1"
  by (rule reachable_createCircle [OF reachable_s0 step1])

lemma reachable_s2: "reachable s2"
  by (rule reachable_joinCircle [OF reachable_s1 step2])

lemma reachable_s3: "reachable s3"
  by (rule reachable_joinCircle [OF reachable_s2 step3])

lemma reachable_s4: "reachable s4"
  by (rule reachable_requestLoan [OF reachable_s3 step4])

lemma reachable_s5: "reachable s5"
  by (rule reachable_approveLoan [OF reachable_s4 step5])

lemma reachable_s6: "reachable s6"
  by (rule reachable_repayLoan [OF reachable_s5 step6])

lemma reachable_s7: "reachable s7"
  by (rule reachable_penalizeDefault [OF reachable_s5 step7])

lemma reachable_s8: "reachable s8"
  by (rule reachable_penalizeDefault [OF reachable_s7 step8])




section \<open>The claims\<close>

text \<open>
  C1 (as stated, refuted). Outside a circle the stored score 0 is not returned: an
  address that never joined reads as score 0 and \<open>getTrustScore\<close> answers 50.
\<close>

theorem getTrustScore_zero_counterexample:
  "circleId (members s0 11) = 0 \<and> individualScore (members s0 11) = 0 \<and>
   getTrustScore s0 11 = Inr 50 \<and>
   getTrustScore s0 11 \<noteq> Inr (individualScore (members s0 11))"
  by (simp add: scenario_defs eval_simps)

text \<open>
  C1 (amended). When the member has no circle, or the member's circle is not active,
  \<open>getTrustScore\<close> returns the stored individual score if that is positive, and
  the starting score 50 if it is 0.
\<close>

theorem getTrustScore_outside_active_circle:
  assumes "circleId (members s user) = 0 \<or>
           \<not> c_isActive (circles s (circleId (members s user)))"
  shows "getTrustScore s user =
     Inr (if individualScore (members s user) > 0 then individualScore (members s user)
          else 50)"
  using assms by (auto simp: getTrustScore_def Let_def STARTING_SCORE_def)

theorem getTrustScore_outside_active_circle_witness:
  "circleId (members s1 11) = 1 \<and> c_isActive (circles s1 1) = False \<and>
   individualScore (members s1 11) = 50 \<and> getTrustScore s1 11 = Inr 50 \<and>
   circleId (members s1 12) = 0 \<and> individualScore (members s1 12) = 0 \<and>
   getTrustScore s1 12 = Inr 50"
  using getTrustScore_outside_active_circle [of s1 11]
    getTrustScore_outside_active_circle [of s1 12]
  by (simp add: scenario_defs zero_member_def zero_circle_def constructor_def)

text \<open>
  C2. In every reachable state every member's individual score lies between 0 and 100:
  creation and joining set it to 50, a repayment bonus saturates at 100, and the default
  and cascade penalties stop at 0, so no call leaves the range.
\<close>

theorem individualScore_in_range:
  "(reachable s \<longrightarrow>
      0 \<le> individualScore (members s a) \<and> individualScore (members s a) \<le> 100) \<and>
   ((\<forall>u. individualScore (members s u) \<le> 100) \<and> step s e c = Inr s' \<longrightarrow>
      (\<forall>u. individualScore (members s' u) \<le> 100)) \<and>
   (createCircle s e v name = Inr s' \<longrightarrow> individualScore (members s' (sender e)) = 50) \<and>
   (joinCircle s e v cid = Inr s' \<longrightarrow> individualScore (members s' (sender e)) = 50)"
proof (intro conjI impI)
  assume "reachable s"
  then have "inv_score s" using reachable_inv by (simp add: inv_def)
  then show "0 \<le> individualScore (members s a)" "individualScore (members s a) \<le> 100"
    by (simp_all add: inv_score_def MAX_SCORE_def)
next
  assume "(\<forall>u. individualScore (members s u) \<le> 100) \<and> step s e c = Inr s'"
  then have "inv_score s" "step s e c = Inr s'" by (simp_all add: inv_score_def MAX_SCORE_def)
  then have "inv_score s'" by (rule inv_score_step)
  then show "\<forall>u. individualScore (members s' u) \<le> 100"
    by (simp add: inv_score_def MAX_SCORE_def)
next
  assume "createCircle s e v name = Inr s'"
  from createCircle_InrD [OF this] show "individualScore (members s' (sender e)) = 50"
    by (simp add: STARTING_SCORE_def)
next
  assume "joinCircle s e v cid = Inr s'"
  from joinCircle_InrD [OF this] show "individualScore (members s' (sender e)) = 50"
    by (simp add: STARTING_SCORE_def)
qed

theorem individualScore_in_range_witness:
  "reachable s7 \<and> individualScore (members s7 11) = 0 \<and>
   individualScore (members s7 12) = 30 \<and> individualScore (members s7 12) \<le> 100 \<and>
   step s5 (call_by 100 1817401) (PenalizeDefault 1) = Inr s7 \<and>
   (\<forall>u. individualScore (members s5 u) \<le> 100) \<and>
   (\<forall>u. individualScore (members s7 u) \<le> 100) \<and>
   createCircle s0 (call_by 11 1000) ether ''savers'' = Inr s1 \<and>
   individualScore (members s1 11) = 50 \<and>
   joinCircle s1 (call_by 12 1001) ether 1 = Inr s2 \<and>
   individualScore (members s2 12) = 50"
proof -
  have v: "individualScore (members s7 11) = 0 \<and> individualScore (members s7 12) = 30"
    by (simp add: scenario_defs)
  have b5: "\<forall>u. individualScore (members s5 u) \<le> 100"
    by (simp add: scenario_defs zero_member_def)
  have st: "step s5 (call_by 100 1817401) (PenalizeDefault 1) = Inr s7"
    by (simp add: step7 [simplified])
  have r: "individualScore (members s7 12) \<le> 100"
    using individualScore_in_range [of s7 12] reachable_s7 by simp
  have b7: "\<forall>u. individualScore (members s7 u) \<le> 100"
    using individualScore_in_range [of s5 _ "call_by 100 1817401" "PenalizeDefault 1" s7]
      b5 st by simp
  have c: "individualScore (members s1 11) = 50"
    using individualScore_in_range [of s0 _ "call_by 11 1000" _ s1 ether "''savers''"] step1
    by (simp add: call_by_def)
  have j: "individualScore (members s2 12) = 50"
    using individualScore_in_range [of s1 _ "call_by 12 1001" _ s2 ether _ 1] step2
    by (simp add: call_by_def)
  show ?thesis using reachable_s7 v r st b5 b7 step1 c step2 j by simp
qed

text \<open>
  C3 (as stated, refuted). After the admin has penalized the default of loan 1 (state
  \<open>s7\<close>), the same call succeeds again and takes another 20 points from member 12.
\<close>

theorem penalizeDefault_twice_counterexample:
  "penalizeDefault s5 (call_by 100 1817401) 1 = Inr s7 \<and>
   penalizeDefault s7 (call_by 100 1817401) 1 = Inr s8 \<and>
   individualScore (members s7 12) = 30 \<and> individualScore (members s8 12) = 10"
  using step7 step8 by (simp add: scenario_defs)

text \<open>
  C3 (amended). The contract keeps no marker of an applied penalty. After a successful
  \<open>penalizeDefault\<close> in a reachable state, a second call on the same loan by the
  admin, at the same or a later time, succeeds as well: it changes no loan field and no
  \<open>isActive\<close> flag, and applies the score penalties once more (50 from the borrower,
  20 from every other member of the borrower's circle, stopping at 0).
\<close>

theorem penalizeDefault_repeats:
  assumes "reachable s" "penalizeDefault s e i = Inr s'"
    "sender e' = admin s'" "timestamp e \<le> timestamp e'" "timestamp e' \<le> MAX_UINT"
    "b = borrower (loans s i)"
  shows "\<exists>s''. penalizeDefault s' e' i = Inr s'' \<and> loans s'' = loans s' \<and>
     (\<forall>a. isActive (members s'' a) = isActive (members s' a)) \<and>
     individualScore (members s'' b) =
       (if 50 \<le> individualScore (members s' b) then individualScore (members s' b) - 50
        else 0) \<and>
     (\<forall>a. a \<noteq> b \<and> a \<in> set (c_members (circles s' (circleId (members s' b)))) \<longrightarrow>
        individualScore (members s'' a) =
          (if 20 \<le> individualScore (members s' a) then individualScore (members s' a) - 20
           else 0))"
proof -
  have r': "reachable s'" by (rule reachable_penalizeDefault [OF assms(1,2)])
  have i': "inv_score s'" "inv_circles s'" using reachable_inv [OF r'] by (simp_all add: inv_def)
  have ic: "inv_circles s" using reachable_inv [OF assms(1)] by (simp add: inv_def)
  note d = penalizeDefault_InrD [OF assms(2)]
  note f = penalizeDefault_frame [OF assms(2)]
  have g: "disbursed (loans s' i)" "\<not> repaid (loans s' i)"
    "dueDate (loans s' i) + 14 * days < timestamp e'"
    using d f assms(4) by simp_all
  from penalizeDefault_succeeds [OF i' assms(3) g assms(5)]
  obtain s'' where p: "penalizeDefault s' e' i = Inr s''" ..
  have b': "b = borrower (loans s' i)" using assms(6) f by simp
  note m = penalizeDefault_effect [OF i'(2) p b']
  have frozen: "\<not> isActive (members s' b)"
    using penalizeDefault_effect [OF ic assms(2,6), of b] by simp
  have "loans s'' = loans s'" using penalizeDefault_frame [OF p] by simp
  moreover have "\<forall>a. isActive (members s'' a) = isActive (members s' a)"
    using m frozen by simp
  moreover have "individualScore (members s'' b) =
       (if 50 \<le> individualScore (members s' b) then individualScore (members s' b) - 50
        else 0)"
    using m [of b] by simp
  moreover have "\<forall>a. a \<noteq> b \<and> a \<in> set (c_members (circles s' (circleId (members s' b)))) \<longrightarrow>
        individualScore (members s'' a) =
          (if 20 \<le> individualScore (members s' a) then individualScore (members s' a) - 20
           else 0)"
    using m by simp
  ultimately show ?thesis using p by blast
qed

theorem penalizeDefault_repeats_witness:
  "reachable s5 \<and> penalizeDefault s5 (call_by 100 1817401) 1 = Inr s7 \<and>
   (\<exists>s''. penalizeDefault s7 (call_by 100 1900000) 1 = Inr s'' \<and> loans s'' = loans s7 \<and>
      isActive (members s'' 11) = isActive (members s7 11) \<and>
      isActive (members s'' 12) = isActive (members s7 12) \<and>
      individualScore (members s'' 11) = 0 \<and> individualScore (members s'' 12) = 10 \<and>
      individualScore (members s'' 13) = 10) \<and>
   individualScore (members s7 11) = 0 \<and> individualScore (members s7 12) = 30 \<and>
   individualScore (members s7 13) = 30"
proof -
  have e: "sender (call_by 100 1900000) = admin s7"
    "timestamp (call_by 100 1817401) \<le> timestamp (call_by 100 1900000)"
    "timestamp (call_by 100 1900000) \<le> MAX_UINT"
    by (simp_all add: scenario_defs constructor_def MAX_UINT_def)
  have b: "11 = borrower (loans s5 1)" by (simp add: scenario_defs)
  have v: "individualScore (members s7 11) = 0 \<and> individualScore (members s7 12) = 30 \<and>
   individualScore (members s7 13) = 30 \<and>
   c_members (circles s7 (circleId (members s7 11))) = [11, 12, 13]"
    by (simp add: scenario_defs)
  from penalizeDefault_repeats [OF reachable_s5 step7 e b] obtain s'' where
    s'': "penalizeDefault s7 (call_by 100 1900000) 1 = Inr s''" "loans s'' = loans s7"
      "\<forall>a. isActive (members s'' a) = isActive (members s7 a)"
      "individualScore (members s'' 11) =
       (if 50 \<le> individualScore (members s7 11) then individualScore (members s7 11) - 50
        else 0)"
      "\<forall>a. a \<noteq> 11 \<and> a \<in> set (c_members (circles s7 (circleId (members s7 11)))) \<longrightarrow>
        individualScore (members s'' a) =
          (if 20 \<le> individualScore (members s7 a) then individualScore (members s7 a) - 20
           else 0)"
    by blast
  have "individualScore (members s'' 11) = 0 \<and> individualScore (members s'' 12) = 10 \<and>
      individualScore (members s'' 13) = 10"
    using s''(4,5) v by simp
  then have "\<exists>s''. penalizeDefault s7 (call_by 100 1900000) 1 = Inr s'' \<and> loans s'' = loans s7 \<and>
      isActive (members s'' 11) = isActive (members s7 11) \<and>
      isActive (members s'' 12) = isActive (members s7 12) \<and>
      individualScore (members s'' 11) = 0 \<and> individualScore (members s'' 12) = 10 \<and>
      individualScore (members s'' 13) = 10"
    using s''(1,2,3) by blast
  then show ?thesis using reachable_s5 step7 v by simp
qed

text \<open>
  C4 (as stated, refuted). No sequence of calls reaches a loan that is approved and not
  disbursed: \<open>approveLoan\<close> is the only function that sets \<open>approved\<close>, and it
  sets \<open>disbursed\<close> in the same call.
\<close>

theorem approved_undisbursed_unreachable_counterexample:
  "\<not> (\<exists>s i. reachable s \<and> approved (loans s i) \<and> \<not> disbursed (loans s i))"
  using reachable_approved_disbursed by blast

text \<open>
  C4 (amended). \<open>approveLoan\<close> is the only path into the disbursed state: it marks
  the loan approved and disbursed together and sets the due date, so in every reachable
  state an approved loan is disbursed and every \<open>disburseLoan\<close> call reverts. Only
  in a state holding an approved, undisbursed loan, which no run produces, does
  \<open>disburseLoan\<close> by the admin with payment equal to the principal succeed (the
  borrower accepting the payment, and the due date and the borrowed total fitting 256
  bits), marking the loan disbursed and setting its due date.
\<close>

theorem disburseLoan_unreachable_path:
  "(reachable s \<longrightarrow>
      (approved (loans s i) \<longrightarrow> disbursed (loans s i)) \<and>
      (\<exists>err. disburseLoan s e v i = Inl err)) \<and>
   (approveLoan s e i = Inr s' \<longrightarrow>
      approved (loans s' i) \<and> disbursed (loans s' i) \<and>
      dueDate (loans s' i) =
        timestamp e + (if isDemoMode s then demoLoanDuration s else LOAN_DURATION)) \<and>
   (sender e = admin s \<and> approved (loans s i) \<and> \<not> disbursed (loans s i) \<and>
    v = amount (loans s i) \<and> payable_ok e (borrower (loans s i)) \<and>
    timestamp e + (if isDemoMode s then demoLoanDuration s else LOAN_DURATION) \<le> MAX_UINT \<and>
    totalBorrowed (members s (borrower (loans s i))) + amount (loans s i) \<le> MAX_UINT \<longrightarrow>
      (\<exists>s''. disburseLoan s e v i = Inr s'' \<and> approved (loans s'' i) \<and>
         disbursed (loans s'' i) \<and>
         dueDate (loans s'' i) =
           timestamp e + (if isDemoMode s then demoLoanDuration s else LOAN_DURATION)))"
proof (intro conjI impI)
  assume r: "reachable s"
  show "disbursed (loans s i)" if "approved (loans s i)"
    using reachable_approved_disbursed [OF r that] .
  show "\<exists>err. disburseLoan s e v i = Inl err"
  proof (cases "disburseLoan s e v i")
    case (Inl err)
    then show ?thesis by blast
  next
    case (Inr s'')
    from disburseLoan_InrD [OF this] have "approved (loans s i)" "\<not> disbursed (loans s i)"
      by simp_all
    then show ?thesis using reachable_approved_disbursed [OF r] by blast
  qed
next
  assume "approveLoan s e i = Inr s'"
  from approveLoan_InrD [OF this]
  show "approved (loans s' i)" "disbursed (loans s' i)"
    "dueDate (loans s' i) =
        timestamp e + (if isDemoMode s then demoLoanDuration s else LOAN_DURATION)"
    by auto
next
  assume "sender e = admin s \<and> approved (loans s i) \<and> \<not> disbursed (loans s i) \<and>
    v = amount (loans s i) \<and> payable_ok e (borrower (loans s i)) \<and>
    timestamp e + (if isDemoMode s then demoLoanDuration s else LOAN_DURATION) \<le> MAX_UINT \<and>
    totalBorrowed (members s (borrower (loans s i))) + amount (loans s i) \<le> MAX_UINT"
  then show "\<exists>s''. disburseLoan s e v i = Inr s'' \<and> approved (loans s'' i) \<and>
         disbursed (loans s'' i) \<and>
         dueDate (loans s'' i) =
           timestamp e + (if isDemoMode s then demoLoanDuration s else LOAN_DURATION)"
    by (simp add: disburseLoan_def Let_def checked_add_def transfer_def)
qed

theorem disburseLoan_unreachable_path_witness:
  "reachable s5 \<and> approved (loans s5 1) \<and> disbursed (loans s5 1) \<and>
   disburseLoan s5 (call_by 100 4000) ether 1 = Inl (Revert ''Already disbursed'') \<and>
   approveLoan s4 (call_by 100 3000) 1 = Inr s5 \<and> dueDate (loans s5 1) = 3000 + 7 * days \<and>
   approved (loans s4_approved 1) \<and> \<not> disbursed (loans s4_approved 1) \<and>
   disburseLoan s4_approved (call_by 100 3000) ether 1 = Inr s4_disbursed \<and>
   disbursed (loans s4_disbursed 1) \<and> dueDate (loans s4_disbursed 1) = 3000 + 7 * days"
proof -
  have a: "approved (loans s5 1) \<and> disbursed (loans s5 1) \<and>
      dueDate (loans s5 1) = 3000 + 7 * days \<and>
      approved (loans s4_approved 1) \<and> \<not> disbursed (loans s4_approved 1) \<and>
      disbursed (loans s4_disbursed 1) \<and> dueDate (loans s4_disbursed 1) = 3000 + 7 * days"
    by (simp add: scenario_defs days_def)
  have b: "disburseLoan s5 (call_by 100 4000) ether 1 = Inl (Revert ''Already disbursed'')"
    by (simp add: scenario_defs eval_simps)
  have c: "disburseLoan s4_approved (call_by 100 3000) ether 1 = Inr s4_disbursed"
    by (simp add: scenario_defs eval_simps)
  show ?thesis
    using disburseLoan_unreachable_path [of s5 1 "call_by 100 4000" ether s5]
      disburseLoan_unreachable_path [of s4_approved 1 "call_by 100 3000" ether s4_disbursed]
      reachable_s5 step5 a b c
    by simp
qed

text \<open>
  C5. A successful repayment (the caller is the borrower, the loan is disbursed and not
  repaid, the payment is exactly the total repayment) raises the borrower's individual
  score by 15 when made before the due date, by 10 up to three days after it, by 5 up to
  seven days after it, each capped at 100, and leaves it as it was after that.
\<close>

theorem repayLoan_credit_bonus:
  assumes "repayLoan s e v i = Inr s'"
  shows "borrower (loans s i) = sender e \<and> disbursed (loans s i) \<and> \<not> repaid (loans s i) \<and>
     v = totalRepayment (loans s i) \<and>
     individualScore (members s' (sender e)) =
       (if timestamp e < dueDate (loans s i)
        then min 100 (individualScore (members s (sender e)) + 15)
        else if timestamp e \<le> dueDate (loans s i) + 3 * days
        then min 100 (individualScore (members s (sender e)) + 10)
        else if timestamp e \<le> dueDate (loans s i) + 7 * days
        then min 100 (individualScore (members s (sender e)) + 5)
        else individualScore (members s (sender e)))"
proof -
  from repayLoan_InrD [OF assms] obtain creditBonus where
    g: "borrower (loans s i) = sender e" "disbursed (loans s i)" "\<not> repaid (loans s i)"
       "v = totalRepayment (loans s i)" and
    b: "calculateCreditBonus (dueDate (loans s i)) (timestamp e) = Inr creditBonus" and
    sc: "individualScore (members s' (sender e)) =
          (if creditBonus > 0
           then (if individualScore (members s (sender e)) + creditBonus > MAX_SCORE
                 then MAX_SCORE
                 else individualScore (members s (sender e)) + creditBonus)
           else individualScore (members s (sender e)))"
    by auto
  from calculateCreditBonus_InrD [OF b] sc g show ?thesis
    by (simp add: MAX_SCORE_def min_def)
qed

theorem repayLoan_credit_bonus_witness:
  "dueDate (loans s5 1) = 607800 \<and> individualScore (members s5 11) = 50 \<and>
   repayLoan s5 (call_by 11 607799) 1060000000000000000 1 = Inr s6 \<and>
   individualScore (members s6 11) = 65 \<and>
   (\<exists>s'. repayLoan s5 (call_by 11 (607800 + 2 * days)) 1060000000000000000 1 = Inr s' \<and>
      individualScore (members s' 11) = 60) \<and>
   (\<exists>s'. repayLoan s5 (call_by 11 (607800 + 5 * days)) 1060000000000000000 1 = Inr s' \<and>
      individualScore (members s' 11) = 55) \<and>
   (\<exists>s'. repayLoan s5 (call_by 11 (607800 + 10 * days)) 1060000000000000000 1 = Inr s' \<and>
      individualScore (members s' 11) = 50)"
proof -
  have v: "dueDate (loans s5 1) = 607800 \<and> individualScore (members s5 11) = 50"
    by (simp add: scenario_defs)
  have early: "individualScore (members s6 11) = 65"
    using repayLoan_credit_bonus [OF step6] v by (simp add: call_by_def)
  have ok: "\<exists>s'. repayLoan s5 (call_by 11 (607800 + n * days)) 1060000000000000000 1 = Inr s'"
    if "n = 2 \<or> n = 5 \<or> n = 10" for n
    using that by (auto simp: scenario_defs eval_simps)
  have d2: "\<exists>s'. repayLoan s5 (call_by 11 (607800 + 2 * days)) 1060000000000000000 1 = Inr s' \<and>
      individualScore (members s' 11) = 60"
  proof -
    from ok [of 2] obtain s' where
      s': "repayLoan s5 (call_by 11 (607800 + 2 * days)) 1060000000000000000 1 = Inr s'"
      by auto
    from repayLoan_credit_bonus [OF s'] v have "individualScore (members s' 11) = 60"
      by (simp add: call_by_def days_def)
    with s' show ?thesis by blast
  qed
  have d5: "\<exists>s'. repayLoan s5 (call_by 11 (607800 + 5 * days)) 1060000000000000000 1 = Inr s' \<and>
      individualScore (members s' 11) = 55"
  proof -
    from ok [of 5] obtain s' where
      s': "repayLoan s5 (call_by 11 (607800 + 5 * days)) 1060000000000000000 1 = Inr s'"
      by auto
    from repayLoan_credit_bonus [OF s'] v have "individualScore (members s' 11) = 55"
      by (simp add: call_by_def days_def)
    with s' show ?thesis by blast
  qed
  have d10: "\<exists>s'. repayLoan s5 (call_by 11 (607800 + 10 * days)) 1060000000000000000 1 = Inr s' \<and>
      individualScore (members s' 11) = 50"
  proof -
    from ok [of 10] obtain s' where
      s': "repayLoan s5 (call_by 11 (607800 + 10 * days)) 1060000000000000000 1 = Inr s'"
      by auto
    from repayLoan_credit_bonus [OF s'] v have "individualScore (members s' 11) = 50"
      by (simp add: call_by_def days_def)
    with s' show ?thesis by blast
  qed
  show ?thesis using v step6 early d2 d5 d10 by simp
qed

text \<open>
  C6. For a call by the admin in a reachable state (the timestamp a 256-bit value),
  \<open>penalizeDefault\<close> succeeds exactly when the loan is disbursed, not repaid, and
  the time is past the due date plus 14 days. On success the borrower's individual score
  drops by 50, stopping at 0, and the borrower is frozen; every other member of the
  borrower's circle loses 20, stopping at 0, and keeps its \<open>isActive\<close> flag; every
  other account is left as it was.
\<close>

theorem penalizeDefault_cascade:
  assumes "reachable s" "sender e = admin s" "timestamp e \<le> MAX_UINT"
    "b = borrower (loans s i)"
  shows "((\<exists>s1. penalizeDefault s e i = Inr s1) =
          (disbursed (loans s i) \<and> \<not> repaid (loans s i) \<and>
           dueDate (loans s i) + 14 * days < timestamp e)) \<and>
     (penalizeDefault s e i = Inr s' \<longrightarrow>
        individualScore (members s' b) =
          (if 50 \<le> individualScore (members s b) then individualScore (members s b) - 50
           else 0) \<and>
        \<not> isActive (members s' b) \<and>
        (\<forall>a. a \<noteq> b \<and> a \<in> set (c_members (circles s (circleId (members s b)))) \<longrightarrow>
           individualScore (members s' a) =
             (if 20 \<le> individualScore (members s a) then individualScore (members s a) - 20
              else 0) \<and>
           isActive (members s' a) = isActive (members s a)) \<and>
        (\<forall>a. a \<noteq> b \<and> a \<notin> set (c_members (circles s (circleId (members s b)))) \<longrightarrow>
           members s' a = members s a))"
proof -
  have i: "inv_score s" "inv_circles s" using reachable_inv [OF assms(1)] by (simp_all add: inv_def)
  have iff: "(\<exists>s1. penalizeDefault s e i = Inr s1) =
          (disbursed (loans s i) \<and> \<not> repaid (loans s i) \<and>
           dueDate (loans s i) + 14 * days < timestamp e)"
  proof
    assume "\<exists>s1. penalizeDefault s e i = Inr s1"
    then obtain s1 where "penalizeDefault s e i = Inr s1" ..
    from penalizeDefault_InrD [OF this]
    show "disbursed (loans s i) \<and> \<not> repaid (loans s i) \<and>
           dueDate (loans s i) + 14 * days < timestamp e" by simp
  next
    assume "disbursed (loans s i) \<and> \<not> repaid (loans s i) \<and>
           dueDate (loans s i) + 14 * days < timestamp e"
    then show "\<exists>s1. penalizeDefault s e i = Inr s1"
      using penalizeDefault_succeeds [OF i assms(2) _ _ _ assms(3)] by blast
  qed
  have eff: "individualScore (members s' b) =
          (if 50 \<le> individualScore (members s b) then individualScore (members s b) - 50
           else 0) \<and>
        \<not> isActive (members s' b) \<and>
        (\<forall>a. a \<noteq> b \<and> a \<in> set (c_members (circles s (circleId (members s b)))) \<longrightarrow>
           individualScore (members s' a) =
             (if 20 \<le> individualScore (members s a) then individualScore (members s a) - 20
              else 0) \<and>
           isActive (members s' a) = isActive (members s a)) \<and>
        (\<forall>a. a \<noteq> b \<and> a \<notin> set (c_members (circles s (circleId (members s b)))) \<longrightarrow>
           members s' a = members s a)"
    if p: "penalizeDefault s e i = Inr s'"
    using penalizeDefault_effect [OF i(2) p assms(4)] by simp
  show ?thesis using iff eff by blast
qed

theorem penalizeDefault_cascade_witness:
  "reachable s5 \<and> dueDate (loans s5 1) + 14 * days = 1817400 \<and>
   disbursed (loans s5 1) \<and> \<not> repaid (loans s5 1) \<and> borrower (loans s5 1) = 11 \<and>
   c_members (circles s5 (circleId (members s5 11))) = [11, 12, 13] \<and>
   (\<nexists>s1. penalizeDefault s5 (call_by 100 1817400) 1 = Inr s1) \<and>
   penalizeDefault s5 (call_by 100 1817401) 1 = Inr s7 \<and>
   individualScore (members s5 11) = 50 \<and> individualScore (members s7 11) = 0 \<and>
   \<not> isActive (members s7 11) \<and>
   individualScore (members s5 12) = 50 \<and> individualScore (members s7 12) = 30 \<and>
   isActive (members s7 12) \<and> members s7 14 = members s5 14"
proof -
  have v: "dueDate (loans s5 1) + 14 * days = 1817400 \<and>
   disbursed (loans s5 1) \<and> \<not> repaid (loans s5 1) \<and> borrower (loans s5 1) = 11 \<and>
   c_members (circles s5 (circleId (members s5 11))) = [11, 12, 13] \<and>
   individualScore (members s5 11) = 50 \<and> individualScore (members s5 12) = 50 \<and>
   isActive (members s5 12)"
    by (simp add: scenario_defs days_def)
  have e: "sender (call_by 100 1817400) = admin s5" "timestamp (call_by 100 1817400) \<le> MAX_UINT"
    "sender (call_by 100 1817401) = admin s5" "timestamp (call_by 100 1817401) \<le> MAX_UINT"
    by (simp_all add: scenario_defs constructor_def MAX_UINT_def)
  have b: "11 = borrower (loans s5 1)" using v by simp
  have early: "\<nexists>s1. penalizeDefault s5 (call_by 100 1817400) 1 = Inr s1"
    using penalizeDefault_cascade [OF reachable_s5 e(1,2) b, of s7] v
    by (simp add: call_by_def)
  have late: "individualScore (members s7 11) = 0 \<and> \<not> isActive (members s7 11) \<and>
     individualScore (members s7 12) = 30 \<and> isActive (members s7 12) \<and>
     members s7 14 = members s5 14"
    using penalizeDefault_cascade [OF reachable_s5 e(3,4) b, of s7] v step7
    by simp
  show ?thesis using reachable_s5 v early step7 late by simp
qed

text \<open>
  C7. While a member's \<open>hasActiveLoan\<close> flag is set, every \<open>requestLoan\<close> of that
  member reverts (with ``Already have active loan'' when the member is not frozen and in
  an active circle), and the transaction leaves the whole contract state, balance
  included, as it was. In a reachable state every loan that is not repaid has its
  borrower's flag set, so a member never has two unrepaid loans.
\<close>

theorem one_active_loan:
  "(hasActiveLoan (members s (sender e)) \<longrightarrow>
      (\<exists>err. requestLoan s e amt purp = Inl err) \<and>
      exec s (e, RequestLoan amt purp) = s \<and>
      (isActive (members s (sender e)) \<and> 0 < circleId (members s (sender e)) \<and>
       c_isActive (circles s (circleId (members s (sender e)))) \<longrightarrow>
         requestLoan s e amt purp = Inl (Revert ''Already have active loan''))) \<and>
   (reachable s \<and> loanExists s i \<and> \<not> repaid (loans s i) \<longrightarrow>
      hasActiveLoan (members s (borrower (loans s i)))) \<and>
   (reachable s \<and> loanExists s i \<and> loanExists s j \<and>
    \<not> repaid (loans s i) \<and> \<not> repaid (loans s j) \<and>
    borrower (loans s i) = borrower (loans s j) \<longrightarrow> i = j)"
proof (intro conjI impI)
  assume h: "hasActiveLoan (members s (sender e))"
  then show f: "\<exists>err. requestLoan s e amt purp = Inl err"
    by (simp add: requestLoan_def)
  then show "exec s (e, RequestLoan amt purp) = s"
    by (auto simp: exec_def)
  show "requestLoan s e amt purp = Inl (Revert ''Already have active loan'')"
    if "isActive (members s (sender e)) \<and> 0 < circleId (members s (sender e)) \<and>
       c_isActive (circles s (circleId (members s (sender e))))"
    using that h by (simp add: requestLoan_def)
next
  assume a: "reachable s \<and> loanExists s i \<and> \<not> repaid (loans s i)"
  then have "inv_loans s" using reachable_inv by (simp add: inv_def)
  from inv_loans_flag [OF this] a
  show "hasActiveLoan (members s (borrower (loans s i)))" by simp
next
  assume a: "reachable s \<and> loanExists s i \<and> loanExists s j \<and>
    \<not> repaid (loans s i) \<and> \<not> repaid (loans s j) \<and>
    borrower (loans s i) = borrower (loans s j)"
  then have "inv_loans s" using reachable_inv by (simp add: inv_def)
  from inv_loans_unique [OF this, of i j] a show "i = j" by simp
qed

theorem one_active_loan_witness:
  "hasActiveLoan (members s4 (sender (call_by 11 2500))) \<and>
   requestLoan s4 (call_by 11 2500) ether ''again'' = Inl (Revert ''Already have active loan'') \<and>
   exec s4 (call_by 11 2500, RequestLoan ether ''again'') = s4 \<and>
   reachable s4 \<and> loanExists s4 1 \<and> \<not> repaid (loans s4 1) \<and> borrower (loans s4 1) = 11 \<and>
   hasActiveLoan (members s4 11)"
proof -
  have h: "hasActiveLoan (members s4 (sender (call_by 11 2500)))"
    by (simp add: scenario_defs)
  have g: "isActive (members s4 (sender (call_by 11 2500))) \<and>
       0 < circleId (members s4 (sender (call_by 11 2500))) \<and>
       c_isActive (circles s4 (circleId (members s4 (sender (call_by 11 2500)))))"
    by (simp add: scenario_defs)
  have l: "loanExists s4 1 \<and> \<not> repaid (loans s4 1) \<and> borrower (loans s4 1) = 11"
    by (simp add: loanExists_def scenario_defs constructor_def)
  show ?thesis
    using one_active_loan [of s4 "call_by 11 2500" ether "''again''" 1 1] h g l reachable_s4
    by simp
qed

text \<open>
  C8. From a reachable state on, a circle that is active stays active over every
  sequence of transactions; and a successful call turns the flag of circle \<open>cid\<close>
  from false to true exactly when it is a \<open>joinCircle\<close> of that circle that raises
  its number of members from 2 to 3.
\<close>

theorem circle_activation_monotone:
  assumes "reachable s"
  shows "(c_isActive (circles s cid) \<longrightarrow> c_isActive (circles (run s txs) cid)) \<and>
     (step s e c = Inr s' \<longrightarrow>
        (\<not> c_isActive (circles s cid) \<and> c_isActive (circles s' cid)) =
        ((\<exists>v. c = JoinCircle v cid) \<and> length (c_members (circles s cid)) = 2 \<and>
         length (c_members (circles s' cid)) = 3))"
proof -
  have ic: "inv_circles s" using reachable_inv [OF assms] by (simp add: inv_def)
  show ?thesis using active_run_mono [OF assms] activation_step [OF ic] by blast
qed

theorem circle_activation_monotone_witness:
  "reachable s2 \<and> step s2 (call_by 13 1002) (JoinCircle ether 1) = Inr s3 \<and>
   \<not> c_isActive (circles s2 1) \<and> c_isActive (circles s3 1) \<and>
   length (c_members (circles s2 1)) = 2 \<and> length (c_members (circles s3 1)) = 3 \<and>
   reachable s3 \<and>
   run s3 [(call_by 11 2000, RequestLoan ether ''seed''), (call_by 100 3000, ApproveLoan 1),
           (call_by 100 1817401, PenalizeDefault 1)] = s7 \<and>
   c_isActive (circles s7 1)"
proof -
  have st: "step s2 (call_by 13 1002) (JoinCircle ether 1) = Inr s3"
    by (simp add: step3 [simplified])
  have r: "run s3 [(call_by 11 2000, RequestLoan ether ''seed''),
                   (call_by 100 3000, ApproveLoan 1),
                   (call_by 100 1817401, PenalizeDefault 1)] = s7"
    by (simp add: run_def exec_def step4 [simplified] step5 [simplified] step7 [simplified])
  have v: "\<not> c_isActive (circles s2 1) \<and>
   length (c_members (circles s2 1)) = 2 \<and> length (c_members (circles s3 1)) = 3"
    by (simp add: scenario_defs)
  have a3: "c_isActive (circles s3 1)"
    using circle_activation_monotone [OF reachable_s2, of 1 "[]" "call_by 13 1002"
        "JoinCircle ether 1" s3] st v by simp
  have a7: "c_isActive (circles s7 1)"
    using circle_activation_monotone [OF reachable_s3, of 1
        "[(call_by 11 2000, RequestLoan ether ''seed''), (call_by 100 3000, ApproveLoan 1),
          (call_by 100 1817401, PenalizeDefault 1)]"] a3 r by simp
  show ?thesis using reachable_s2 reachable_s3 st r v a3 a7 by simp
qed

text \<open>
  C9. The credit policy is a table of the trust score: below 60 the limit is 10 ether at
  6 percent, from 60 to 69 it is 20 ether at 4 percent, from 70 to 79 it is 50 ether at
  4 percent, from 80 to 89 it is 100 ether at 2 percent, and from 90 on 200 ether at
  2 percent. A successful \<open>requestLoan\<close> stores, under the next loan id, the
  interest \<open>amt * rate div 100\<close> and the total \<open>amt + interest\<close> for the rate
  of the caller's trust score at that moment, and no later transaction changes the
  amount, the interest or the total of an existing loan.
\<close>

theorem credit_policy_table:
  "(getTrustScore s user = Inr t \<longrightarrow>
      getMaxLoanAmount s user =
        Inr (if t < 60 then 10 * ether
             else if 60 \<le> t \<and> t \<le> 69 then 20 * ether
             else if 70 \<le> t \<and> t \<le> 79 then 50 * ether
             else if 80 \<le> t \<and> t \<le> 89 then 100 * ether
             else 200 * ether) \<and>
      getInterestRate s user =
        Inr (if t < 60 then 6
             else if 60 \<le> t \<and> t \<le> 69 then 4
             else if 70 \<le> t \<and> t \<le> 79 then 4
             else if 80 \<le> t \<and> t \<le> 89 then 2
             else 2)) \<and>
   (requestLoan s e amt purp = Inr s' \<longrightarrow>
      (\<exists>rate limit. getInterestRate s (sender e) = Inr rate \<and>
         getMaxLoanAmount s (sender e) = Inr limit \<and> amt \<le> limit \<and>
         loanCount s' = loanCount s + 1 \<and>
         amount (loans s' (loanCount s')) = amt \<and>
         interestAmount (loans s' (loanCount s')) = amt * rate div 100 \<and>
         totalRepayment (loans s' (loanCount s')) = amt + amt * rate div 100)) \<and>
   (loanExists s i \<longrightarrow>
      amount (loans (run s txs) i) = amount (loans s i) \<and>
      interestAmount (loans (run s txs) i) = interestAmount (loans s i) \<and>
      totalRepayment (loans (run s txs) i) = totalRepayment (loans s i))"
proof (intro conjI impI)
  assume t: "getTrustScore s user = Inr t"
  show "getMaxLoanAmount s user =
        Inr (if t < 60 then 10 * ether
             else if 60 \<le> t \<and> t \<le> 69 then 20 * ether
             else if 70 \<le> t \<and> t \<le> 79 then 50 * ether
             else if 80 \<le> t \<and> t \<le> 89 then 100 * ether
             else 200 * ether)"
    using t by (auto simp: getMaxLoanAmount_def)
  show "getInterestRate s user =
        Inr (if t < 60 then 6
             else if 60 \<le> t \<and> t \<le> 69 then 4
             else if 70 \<le> t \<and> t \<le> 79 then 4
             else if 80 \<le> t \<and> t \<le> 89 then 2
             else 2)"
    using t by (auto simp: getInterestRate_def)
next
  assume "requestLoan s e amt purp = Inr s'"
  from requestLoan_InrD [OF this]
  show "\<exists>rate limit. getInterestRate s (sender e) = Inr rate \<and>
         getMaxLoanAmount s (sender e) = Inr limit \<and> amt \<le> limit \<and>
         loanCount s' = loanCount s + 1 \<and>
         amount (loans s' (loanCount s')) = amt \<and>
         interestAmount (loans s' (loanCount s')) = amt * rate div 100 \<and>
         totalRepayment (loans s' (loanCount s')) = amt + amt * rate div 100"
    by auto
next
  assume "loanExists s i"
  from run_keeps_loan_terms [OF this, of txs]
  show "amount (loans (run s txs) i) = amount (loans s i)"
    "interestAmount (loans (run s txs) i) = interestAmount (loans s i)"
    "totalRepayment (loans (run s txs) i) = totalRepayment (loans s i)"
    by simp_all
qed

theorem credit_policy_table_witness:
  "getTrustScore s3 11 = Inr 50 \<and> getMaxLoanAmount s3 11 = Inr (10 * ether) \<and>
   getInterestRate s3 11 = Inr 6 \<and>
   requestLoan s3 (call_by 11 2000) ether ''seed'' = Inr s4 \<and>
   interestAmount (loans s4 1) = ether * 6 div 100 \<and>
   totalRepayment (loans s4 1) = ether + ether * 6 div 100 \<and>
   loanExists s4 1 \<and>
   run s4 [(call_by 100 3000, ApproveLoan 1),
           (call_by 11 607799, RepayLoan 1060000000000000000 1)] = s6 \<and>
   interestAmount (loans s6 1) = interestAmount (loans s4 1) \<and>
   totalRepayment (loans s6 1) = totalRepayment (loans s4 1)"
proof -
  have t: "getTrustScore s3 11 = Inr 50"
    by (simp add: scenario_defs eval_simps)
  have ex: "loanExists s4 1"
    by (simp add: loanExists_def scenario_defs constructor_def)
  have r: "run s4 [(call_by 100 3000, ApproveLoan 1),
           (call_by 11 607799, RepayLoan 1060000000000000000 1)] = s6"
    by (simp add: run_def exec_def step5 [simplified] step6 [simplified])
  note th = credit_policy_table [of s3 11 50 "call_by 11 2000" ether "''seed''" s4 1
      "[(call_by 100 3000, ApproveLoan 1),
        (call_by 11 607799, RepayLoan 1060000000000000000 1)]"]
  have a: "getMaxLoanAmount s3 11 = Inr (10 * ether) \<and> getInterestRate s3 11 = Inr 6"
    using th t by simp
  have b: "interestAmount (loans s4 1) = ether * 6 div 100 \<and>
   totalRepayment (loans s4 1) = ether + ether * 6 div 100"
    by (simp add: scenario_defs ether_def)
  have c: "interestAmount (loans s6 1) = interestAmount (loans s4 1) \<and>
   totalRepayment (loans s6 1) = totalRepayment (loans s4 1)"
    by (simp add: scenario_defs)
  show ?thesis using t a step4 b ex r c by simp
qed




end
